theory Spec2Isabelle
  imports Main "HOL-Library.AList" "HOL-Library.Multiset" "HOL-Library.Sublist" "HOL-Library.Word"
begin

section \<open>Data model\<close>

text \<open>
  A Python \<open>dict\<close> keeps its keys unique and iterates in insertion order. It is modelled
  as an association list whose keys are distinct: \<open>d[k] = v\<close> is \<^const>\<open>AList.update\<close>
  (overwrite in place, or append a new key at the end), \<open>d[k]\<close> is \<^const>\<open>map_of\<close>,
  \<open>d.pop(k, None)\<close> is \<^const>\<open>AList.delete\<close>, and rewriting every value while iterating
  is \<^const>\<open>AList.map_ran\<close>.
\<close>

type_synonym ('k, 'v) dict = "('k \<times> 'v) list"

type_synonym byte = "8 word"

text \<open>
  The value \<open>json.loads\<close> returns. Numbers keep their literal text: nothing in
  \<open>safetensors_load.py\<close> looks inside one.
\<close>

datatype json =
    JNull
  | JBool bool
  | JNum string
  | JStr string
  | JArr "json list"
  | JObj "(string \<times> json) list"

text \<open>
  The exceptions the two source files can raise, named as Python names them
  (\<open>StructError\<close> is \<open>struct.error\<close>, \<open>ReError\<close> is \<open>re.error\<close>).
\<close>

datatype error =
    StructError
  | JSONDecodeError
  | OverflowError
  | MemoryError
  | FileNotFoundError
  | IsADirectoryError
  | AttributeError
  | KeyError
  | TypeError
  | ValueError
  | ReError

text \<open>
  The file system seen through \<open>open\<close>, \<open>os.path.isfile\<close> and \<open>os.path.exists\<close>:
  what a path string resolves to, if anything.
\<close>

datatype node = File "byte list" | Dir

type_synonym filesystem = "string \<Rightarrow> node option"

section \<open>Paths and files\<close>

text \<open>The two constants imported from \<open>transformers.utils\<close>, with their values there.\<close>

definition SAFE_WEIGHTS_NAME :: string where
  "SAFE_WEIGHTS_NAME = ''model.safetensors''"

definition SAFE_WEIGHTS_INDEX_NAME :: string where
  "SAFE_WEIGHTS_INDEX_NAME = ''model.safetensors.index.json''"

definition os_path_isfile :: "filesystem \<Rightarrow> string \<Rightarrow> bool" where
  "os_path_isfile fs p = (case fs p of Some (File content) \<Rightarrow> True | _ \<Rightarrow> False)"

definition os_path_exists :: "filesystem \<Rightarrow> string \<Rightarrow> bool" where
  "os_path_exists fs p = (case fs p of Some n \<Rightarrow> True | None \<Rightarrow> False)"

text \<open>
  \<open>os.path.join\<close> of \<open>posixpath\<close> for two components: an absolute second component
  replaces the first; otherwise a slash is inserted unless the first is empty or
  already ends in one.
\<close>

definition os_path_join :: "string \<Rightarrow> string \<Rightarrow> string" where
  "os_path_join a b =
     (if b \<noteq> [] \<and> hd b = CHR ''/'' then b
      else if a = [] \<or> last a = CHR ''/'' then a @ b
      else a @ ''/'' @ b)"

text \<open>\<open>open(path, ...)\<close>: the content of the file, out of which the callers read.\<close>

definition open_read :: "filesystem \<Rightarrow> string \<Rightarrow> error + byte list" where
  "open_read fs p =
     (case fs p of
        None \<Rightarrow> Inl FileNotFoundError
      | Some Dir \<Rightarrow> Inl IsADirectoryError
      | Some (File content) \<Rightarrow> Inr content)"

section \<open>The header reader\<close>

text \<open>\<open>struct.unpack("<Q", b)\<close>: eight bytes, least significant first.\<close>

definition unpack_le_uint64 :: "byte list \<Rightarrow> error + nat" where
  "unpack_le_uint64 b =
     (if length b \<noteq> 8 then Inl StructError
      else Inr (foldr (\<lambda>x acc. unat x + 256 * acc) b 0))"

text \<open>
  \<open>f.read(n)\<close> on a file opened in binary mode returns the next \<open>n\<close> bytes, or fewer at
  the end of the file. The interpreter allocates the \<open>bytes\<close> object of the result for the
  requested size before it reads: a size above \<open>PY_SSIZE_T_MAX\<close> minus the 33 bytes of
  the object's own header is refused with \<open>OverflowError\<close> (a size above
  \<open>PY_SSIZE_T_MAX\<close> already when the argument is converted), and a size that the
  allocator cannot serve raises \<open>MemoryError\<close>. What the allocator can serve depends
  on the machine: it is the parameter \<open>max_alloc\<close>, the largest size it grants.
  \<open>file_read max_alloc n rest\<close> is the read of \<open>n\<close> bytes when \<open>rest\<close> is what is left of
  the file.
\<close>

definition PY_SSIZE_T_MAX :: nat where
  "PY_SSIZE_T_MAX = 2 ^ 63 - 1"

definition file_read :: "nat \<Rightarrow> nat \<Rightarrow> byte list \<Rightarrow> error + byte list" where
  "file_read max_alloc n rest =
     (if PY_SSIZE_T_MAX - 33 < n then Inl OverflowError
      else if max_alloc < n then Inl MemoryError
      else Inr (take n rest))"

text \<open>
  \<open>get_safetensors_header\<close>. \<open>json.loads\<close> is the standard library's decoder, taken as the
  parameter \<open>json_loads\<close>; \<open>None\<close> stands for its raising \<open>JSONDecodeError\<close>.
\<close>

definition get_safetensors_header ::
  "nat \<Rightarrow> (byte list \<Rightarrow> json option) \<Rightarrow> filesystem \<Rightarrow> string \<Rightarrow> error + json" where
  "get_safetensors_header max_alloc json_loads fs safetensors_path =
     (case open_read fs safetensors_path of
        Inl e \<Rightarrow> Inl e
      | Inr f \<Rightarrow>
          (case file_read max_alloc 8 f of
             Inl e \<Rightarrow> Inl e
           | Inr prologue \<Rightarrow>
               (case unpack_le_uint64 prologue of
                  Inl e \<Rightarrow> Inl e
                | Inr length_of_header \<Rightarrow>
                    (case file_read max_alloc length_of_header (drop 8 f) of
                       Inl e \<Rightarrow> Inl e
                     | Inr header_data \<Rightarrow>
                         (case json_loads header_data of
                            None \<Rightarrow> Inl JSONDecodeError
                          | Some header \<Rightarrow> Inr header)))))"

section \<open>The location resolver\<close>

text \<open>
  \<open>header.keys()\<close> exists only when the decoded header is a \<open>dict\<close>; on any other JSON
  value the attribute lookup raises.
\<close>

definition header_dict :: "json \<Rightarrow> error + (string, json) dict" where
  "header_dict header = (case header of JObj d \<Rightarrow> Inr d | _ \<Rightarrow> Inl AttributeError)"

text \<open>
  The two statements both single-file branches run on the header:
  \<^verbatim>\<open>for key in header.keys(): header[key] = location\<close> and then
  \<^verbatim>\<open>header.pop("__metadata__", None)\<close>.
\<close>

definition point_header_at :: "string \<Rightarrow> (string, json) dict \<Rightarrow> (string, string) dict" where
  "point_header_at location d =
     AList.delete ''__metadata__'' (AList.map_ran (\<lambda>key old. location) d)"

text \<open>
  The values of an index's \<open>weight_map\<close> reach \<open>os.path.join\<close>, which raises
  \<open>TypeError\<close> on anything but a string.
\<close>

fun str_values :: "(string, json) dict \<Rightarrow> error + (string, string) dict" where
  "str_values [] = Inr []"
| "str_values ((key, JStr s) # rest) =
     (case str_values rest of Inl e \<Rightarrow> Inl e | Inr r \<Rightarrow> Inr ((key, s) # r))"
| "str_values ((key, other) # rest) = Inl TypeError"

text \<open>\<^verbatim>\<open>for key, value in header.items(): header[key] = os.path.join(path, value)\<close>\<close>

definition join_locations :: "string \<Rightarrow> (string, string) dict \<Rightarrow> (string, string) dict" where
  "join_locations path d = AList.map_ran (\<lambda>key val. os_path_join path val) d"

text \<open>
  \<open>index["weight_map"]\<close> on the decoded index: subscripting a non-\<open>dict\<close> with a string
  raises \<open>TypeError\<close>, a missing key raises \<open>KeyError\<close>.
\<close>

definition index_weight_map :: "json \<Rightarrow> error + json" where
  "index_weight_map index =
     (case index of
        JObj entries \<Rightarrow> (case map_of entries ''weight_map'' of None \<Rightarrow> Inl KeyError | Some wm \<Rightarrow> Inr wm)
      | _ \<Rightarrow> Inl TypeError)"

text \<open>
  \<open>get_weight_mappings\<close>. The index is read in text mode with \<open>json.load\<close>, a second
  decoder parameter \<open>json_load\<close>.
\<close>

definition get_weight_mappings ::
  "nat \<Rightarrow> (byte list \<Rightarrow> json option) \<Rightarrow> (byte list \<Rightarrow> json option) \<Rightarrow> filesystem \<Rightarrow> string
     \<Rightarrow> error + (string, string) dict" where
  "get_weight_mappings max_alloc json_loads json_load fs path_to_model_or_tensors =
     (if os_path_isfile fs path_to_model_or_tensors then
        (case get_safetensors_header max_alloc json_loads fs path_to_model_or_tensors of
           Inl e \<Rightarrow> Inl e
         | Inr header \<Rightarrow>
             (case header_dict header of
                Inl e \<Rightarrow> Inl e
              | Inr d \<Rightarrow> Inr (point_header_at path_to_model_or_tensors d)))
      else
        (let safetensors_path = os_path_join path_to_model_or_tensors SAFE_WEIGHTS_NAME;
             index_path = os_path_join path_to_model_or_tensors SAFE_WEIGHTS_INDEX_NAME
         in
           if os_path_exists fs safetensors_path then
             (case get_safetensors_header max_alloc json_loads fs safetensors_path of
                Inl e \<Rightarrow> Inl e
              | Inr header \<Rightarrow>
                  (case header_dict header of
                     Inl e \<Rightarrow> Inl e
                   | Inr d \<Rightarrow>
                       Inr (join_locations path_to_model_or_tensors
                              (point_header_at SAFE_WEIGHTS_NAME d))))
           else if os_path_exists fs index_path then
             (case open_read fs index_path of
                Inl e \<Rightarrow> Inl e
              | Inr f \<Rightarrow>
                  (case json_load f of
                     None \<Rightarrow> Inl JSONDecodeError
                   | Some index \<Rightarrow>
                       (case index_weight_map index of
                          Inl e \<Rightarrow> Inl e
                        | Inr wm \<Rightarrow>
                            (case header_dict wm of
                               Inl e \<Rightarrow> Inl e
                             | Inr d \<Rightarrow>
                                 (case str_values d of
                                    Inl e \<Rightarrow> Inl e
                                  | Inr header \<Rightarrow>
                                      Inr (join_locations path_to_model_or_tensors header))))))
           else Inl ValueError))"

section \<open>The dense compressor\<close>

text \<open>
  \<open>DenseCompressor.compress\<close> returns its argument. \<open>decompress_from_state_dict\<close> is a
  generator; the model is the list of the pairs it yields, in the order of the yields.
\<close>

definition compress :: "(string, 'v) dict \<Rightarrow> (string, 'v) dict" where
  "compress model_state = model_state"

fun decompress_from_state_dict :: "(string, 'v) dict \<Rightarrow> (string \<times> 'v) list" where
  "decompress_from_state_dict [] = []"
| "decompress_from_state_dict ((key, val) # items) = (key, val) # decompress_from_state_dict items"

section \<open>The name codec\<close>

text \<open>
  \<open>match_param_name\<close> builds the pattern \<^verbatim>\<open>r"^(.*)\." + param_name + r"$"\<close> and hands it
  to \<open>re.findall\<close>. The parameter name is spliced in as it is, so it is read as
  regular-expression syntax. The model follows the pattern compiler of \<open>re\<close> on the
  tail \<^verbatim>\<open>\.\<close> + \<open>param_name\<close> + \<^verbatim>\<open>$\<close> for this fragment of the syntax:
  \<^item> a character outside \<open>SPECIAL_CHARS\<close> matches itself;
  \<^item> \<^verbatim>\<open>.\<close> matches any character but the newline;
  \<^item> a backslash followed by a character that is not an ASCII letter or digit matches
    that character;
  \<^item> \<^verbatim>\<open>*\<close>, \<^verbatim>\<open>+\<close> and \<^verbatim>\<open>?\<close> repeat the atom before them;
  \<^item> an unescaped \<^verbatim>\<open>$\<close> as the last character is the end anchor: the end of the string, or
    just before a newline that ends the string.

  Everything else (classes, groups, alternation, braces, anchors inside the name,
  backslash with a letter or digit, a repeat right after a repeat) is outside the
  fragment: \<open>compile_tail\<close> returns \<open>None\<close>, and what \<open>re.findall\<close> does with such a
  pattern is left to the parameter \<open>re_rest\<close> of \<open>match_param_name\<close>, as the JSON
  decoder is left to \<open>json_loads\<close>. Strings are lists of 8-bit characters.
\<close>

text \<open>
  An element of the list \<open>re.findall\<close> returns: the text of the group when the pattern
  has one group, the tuple of the texts of its groups when the parameter name brings
  groups of its own. \<open>re_engine\<close> is the type of \<open>re.findall\<close> as a function of the
  pattern and the string, \<open>Inl\<close> when it raises (\<open>re.error\<close> on a pattern that does not
  compile).
\<close>

datatype found = Str string | Tuple "string list"

type_synonym re_engine = "string \<Rightarrow> string \<Rightarrow> error + found list"

datatype atom = Lit char | AnyChar

datatype quant = One | Star | Plus | Opt

datatype tok = TAtom atom | TRep quant | TEnd | TBad

definition newline :: char where
  "newline = CHR 0x0A"

definition backslash :: char where
  "backslash = CHR 0x5C"

text \<open>\<open>SPECIAL_CHARS\<close> of the pattern parser: \<^verbatim>\<open>.\[{()*+?^$|\<close>\<close>

definition SPECIAL_CHARS :: string where
  "SPECIAL_CHARS = backslash # ''.[{()*+?^$|''"

definition ascii_alnum :: "char \<Rightarrow> bool" where
  "ascii_alnum c =
     (let n = (of_char c :: nat)
      in (48 \<le> n \<and> n \<le> 57) \<or> (65 \<le> n \<and> n \<le> 90) \<or> (97 \<le> n \<and> n \<le> 122))"

definition tok_of :: "char \<Rightarrow> tok" where
  "tok_of c =
     (if c = CHR ''.'' then TAtom AnyChar
      else if c = CHR ''*'' then TRep Star
      else if c = CHR ''+'' then TRep Plus
      else if c = CHR ''?'' then TRep Opt
      else if c = CHR ''$'' then TEnd
      else if c \<in> set SPECIAL_CHARS then TBad
      else TAtom (Lit c))"

fun lex :: "string \<Rightarrow> tok list" where
  "lex [] = []"
| "lex [c] = [if c = backslash then TBad else tok_of c]"
| "lex (c # d # cs) =
     (if c = backslash then (if ascii_alnum d then TBad else TAtom (Lit d)) # lex cs
      else tok_of c # lex (d # cs))"

text \<open>
  The compiled tail: the items to match in sequence, and whether the pattern ends in
  the end anchor (it does not when the name ends in a backslash, which escapes the
  \<^verbatim>\<open>$\<close>).
\<close>

type_synonym item = "atom \<times> quant"

fun compile_items :: "tok list \<Rightarrow> (item list \<times> bool) option" where
  "compile_items [] = Some ([], False)"
| "compile_items [TEnd] = Some ([], True)"
| "compile_items (TAtom a # TRep q # ts) =
     (case ts of
        TRep q' # ts' \<Rightarrow> None
      | _ \<Rightarrow> (case compile_items ts of
                None \<Rightarrow> None
              | Some (items, anchored) \<Rightarrow> Some ((a, q) # items, anchored)))"
| "compile_items (TAtom a # ts) =
     (case compile_items ts of
        None \<Rightarrow> None
      | Some (items, anchored) \<Rightarrow> Some ((a, One) # items, anchored))"
| "compile_items ts = None"

definition compile_tail :: "string \<Rightarrow> (item list \<times> bool) option" where
  "compile_tail param_name = compile_items (lex (backslash # CHR ''.'' # param_name @ ''$''))"

fun atom_matches :: "atom \<Rightarrow> char \<Rightarrow> bool" where
  "atom_matches (Lit c) x = (x = c)"
| "atom_matches AnyChar x = (x \<noteq> newline)"

text \<open>
  Whether the items, and then the end anchor if there is one, match at the start of
  \<open>s\<close>. Each repeat first tries to take one more character and then to stop, as the
  backtracking matcher does; for a yes-or-no answer the order is immaterial.
\<close>

fun matches_tail :: "item list \<Rightarrow> bool \<Rightarrow> string \<Rightarrow> bool" where
  "matches_tail [] anchored s = (if anchored then s = [] \<or> s = [newline] else True)"
| "matches_tail ((a, One) # items) anchored [] = False"
| "matches_tail ((a, One) # items) anchored (x # s) =
     (atom_matches a x \<and> matches_tail items anchored s)"
| "matches_tail ((a, Opt) # items) anchored [] = matches_tail items anchored []"
| "matches_tail ((a, Opt) # items) anchored (x # s) =
     ((atom_matches a x \<and> matches_tail items anchored s) \<or> matches_tail items anchored (x # s))"
| "matches_tail ((a, Star) # items) anchored [] = matches_tail items anchored []"
| "matches_tail ((a, Star) # items) anchored (x # s) =
     ((atom_matches a x \<and> matches_tail ((a, Star) # items) anchored s)
      \<or> matches_tail items anchored (x # s))"
| "matches_tail ((a, Plus) # items) anchored [] = False"
| "matches_tail ((a, Plus) # items) anchored (x # s) =
     (atom_matches a x \<and> matches_tail ((a, Star) # items) anchored s)"

text \<open>
  The group \<^verbatim>\<open>(.*)\<close> anchored at the start by \<^verbatim>\<open>^\<close>: greedy, so the longest run of
  non-newline characters after which the tail matches; \<open>None\<close> when there is no match.
\<close>

fun dotstar_group :: "item list \<Rightarrow> bool \<Rightarrow> string \<Rightarrow> string option" where
  "dotstar_group items anchored [] = (if matches_tail items anchored [] then Some [] else None)"
| "dotstar_group items anchored (x # s) =
     (case (if x = newline then None else dotstar_group items anchored s) of
        Some g \<Rightarrow> Some (x # g)
      | None \<Rightarrow> if matches_tail items anchored (x # s) then Some [] else None)"

text \<open>
  \<open>re.findall\<close> on a pattern of the fragment, which has the one group: the list of what
  the group matched, for each match. \<^verbatim>\<open>^\<close> matches at offset 0 only, so there is at most
  one.
\<close>

definition re_findall :: "item list \<Rightarrow> bool \<Rightarrow> string \<Rightarrow> string list" where
  "re_findall items anchored s =
     (case dotstar_group items anchored s of None \<Rightarrow> [] | Some g \<Rightarrow> [g])"

text \<open>
  \<open>match_param_name\<close>: the pattern is built, \<open>re.findall\<close> runs (the model above inside
  the fragment, \<open>re_rest\<close> on the pattern outside it), and the function returns \<open>None\<close>
  for the empty list and the first element otherwise.
\<close>

definition match_param_name :: "re_engine \<Rightarrow> string \<Rightarrow> string \<Rightarrow> error + found option" where
  "match_param_name re_rest full_name param_name =
     (let pattern = ''^(.*)'' @ backslash # ''.'' @ param_name @ ''$''
      in case (case compile_tail param_name of
                 None \<Rightarrow> re_rest pattern full_name
               | Some (items, anchored) \<Rightarrow> Inr (map Str (re_findall items anchored full_name))) of
           Inl e \<Rightarrow> Inl e
         | Inr regex \<Rightarrow> if length regex = 0 then Inr None else Inr (Some (hd regex)))"

definition merge_names :: "string \<Rightarrow> string \<Rightarrow> string" where
  "merge_names parent_name child_name = parent_name @ ''.'' @ child_name"

section \<open>The name grouper\<close>

text \<open>
  The nested mapping: entity name to an inner \<open>dict\<close> from parameter name to value. The
  entity name is what \<open>match_param_name\<close> returned, used as a key as it is.
\<close>

type_synonym 'v nested = "(found, (string, 'v) dict) dict"

text \<open>
  \<^verbatim>\<open>if module_path not in nested: nested[module_path] = {}\<close> followed by
  \<^verbatim>\<open>nested[module_path][param_name] = value\<close>. A new entity is appended with the
  one-entry inner \<open>dict\<close>; an entity already present has its inner \<open>dict\<close> updated in place.
\<close>

definition nest_value :: "found \<Rightarrow> string \<Rightarrow> 'v \<Rightarrow> 'v nested \<Rightarrow> 'v nested" where
  "nest_value module_path param_name val nested_weight_mappings =
     (case map_of nested_weight_mappings module_path of
        None \<Rightarrow> AList.update module_path [(param_name, val)] nested_weight_mappings
      | Some inner \<Rightarrow>
          AList.update module_path (AList.update param_name val inner) nested_weight_mappings)"

text \<open>
  The truth value of what \<open>match_param_name\<close> returned, \<open>None\<close> apart: a string or a
  tuple is true when it is not empty.
\<close>

fun truthy :: "found \<Rightarrow> bool" where
  "truthy (Str s) = (s \<noteq> [])"
| "truthy (Tuple ts) = (ts \<noteq> [])"

text \<open>
  The inner loop \<^verbatim>\<open>for param_name in params_to_nest\<close> for one key. The test
  \<^verbatim>\<open>if module_path:\<close> is false for \<open>None\<close> and for the empty string. \<open>params_to_nest\<close> is
  a collection that can be iterated once per key, modelled as a list.
\<close>

fun nest_params ::
  "re_engine \<Rightarrow> string \<Rightarrow> 'v \<Rightarrow> string list \<Rightarrow> 'v nested \<times> bool \<Rightarrow> error + 'v nested \<times> bool" where
  "nest_params re_rest key val [] (nested_weight_mappings, matched) =
     Inr (nested_weight_mappings, matched)"
| "nest_params re_rest key val (param_name # rest) (nested_weight_mappings, matched) =
     (case match_param_name re_rest key param_name of
        Inl e \<Rightarrow> Inl e
      | Inr None \<Rightarrow> nest_params re_rest key val rest (nested_weight_mappings, matched)
      | Inr (Some module_path) \<Rightarrow>
          (if truthy module_path then
             nest_params re_rest key val rest
               (nest_value module_path param_name val nested_weight_mappings, True)
           else nest_params re_rest key val rest (nested_weight_mappings, matched)))"

text \<open>
  The outer loop over the items of the flat mapping, threading the two dictionaries
  under construction. Both grouping functions of the source run this same loop.
\<close>

fun nest_items ::
  "re_engine \<Rightarrow> string list \<Rightarrow> bool \<Rightarrow> (string, 'v) dict \<Rightarrow> 'v nested \<times> (string, 'v) dict
     \<Rightarrow> error + 'v nested \<times> (string, 'v) dict" where
  "nest_items re_rest params_to_nest return_unmatched_params []
       (nested_weight_mappings, unmatched_params) =
     Inr (nested_weight_mappings, unmatched_params)"
| "nest_items re_rest params_to_nest return_unmatched_params ((key, val) # rest)
       (nested_weight_mappings, unmatched_params) =
     (case nest_params re_rest key val params_to_nest (nested_weight_mappings, False) of
        Inl e \<Rightarrow> Inl e
      | Inr (nested', matched) \<Rightarrow>
          nest_items re_rest params_to_nest return_unmatched_params rest
            (nested',
             if return_unmatched_params \<and> \<not> matched then AList.update key val unmatched_params
             else unmatched_params))"

text \<open>
  \<open>get_nested_mappings_from_state_dict\<close>. The source returns the nested mapping alone,
  or the pair with the unmatched parameters; the model returns the pair with an
  optional second component.
\<close>

definition get_nested_mappings_from_state_dict ::
  "re_engine \<Rightarrow> (string, 'v) dict \<Rightarrow> string list \<Rightarrow> bool
     \<Rightarrow> error + 'v nested \<times> (string, 'v) dict option" where
  "get_nested_mappings_from_state_dict re_rest state_dict params_to_nest return_unmatched_params =
     (case nest_items re_rest params_to_nest return_unmatched_params state_dict ([], []) of
        Inl e \<Rightarrow> Inl e
      | Inr (nested_weight_mappings, unmatched_params) \<Rightarrow>
          if return_unmatched_params then Inr (nested_weight_mappings, Some unmatched_params)
          else Inr (nested_weight_mappings, None))"

definition get_nested_weight_mappings ::
  "nat \<Rightarrow> (byte list \<Rightarrow> json option) \<Rightarrow> (byte list \<Rightarrow> json option) \<Rightarrow> re_engine \<Rightarrow> filesystem
     \<Rightarrow> string \<Rightarrow> string list \<Rightarrow> bool \<Rightarrow> error + string nested \<times> (string, string) dict option" where
  "get_nested_weight_mappings max_alloc json_loads json_load re_rest fs model_path params_to_nest
       return_unmatched_params =
     (case get_weight_mappings max_alloc json_loads json_load fs model_path of
        Inl e \<Rightarrow> Inl e
      | Inr weight_mappings \<Rightarrow>
          (case nest_items re_rest params_to_nest return_unmatched_params weight_mappings ([], []) of
             Inl e \<Rightarrow> Inl e
           | Inr (nested_weight_mappings, unmatched_params) \<Rightarrow>
               if return_unmatched_params then Inr (nested_weight_mappings, Some unmatched_params)
               else Inr (nested_weight_mappings, None)))"

text \<open>
  Notions used to state the properties of the grouping. \<open>module_path_of re_rest key p\<close>
  is the entity under which the loop files \<open>key\<close> for the parameter name \<open>p\<close>, if it does;
  \<open>lookup_slot\<close> reads \<open>nested[entity][p]\<close>; \<open>nested_values\<close> lists the values of all
  inner dictionaries.
\<close>

definition module_path_of :: "re_engine \<Rightarrow> string \<Rightarrow> string \<Rightarrow> found option" where
  "module_path_of re_rest key param_name =
     (case match_param_name re_rest key param_name of
        Inr (Some module_path) \<Rightarrow> if truthy module_path then Some module_path else None
      | _ \<Rightarrow> None)"

definition lookup_slot :: "'v nested \<Rightarrow> found \<Rightarrow> string \<Rightarrow> 'v option" where
  "lookup_slot nested entity param_name =
     (case map_of nested entity of None \<Rightarrow> None | Some inner \<Rightarrow> map_of inner param_name)"

definition nested_values :: "'v nested \<Rightarrow> 'v list" where
  "nested_values nested = concat (map (\<lambda>(entity, inner). map snd inner) nested)"

text \<open>
  What the inner loop makes of the nested mapping for one key, when \<open>re.findall\<close>
  raises on no pattern: each parameter name that yields a non-empty entity files the
  value there.
\<close>

definition filed :: "re_engine \<Rightarrow> string \<Rightarrow> 'v \<Rightarrow> string list \<Rightarrow> 'v nested \<Rightarrow> 'v nested" where
  "filed re_rest key val params_to_nest nested =
     fold (\<lambda>p acc. case module_path_of re_rest key p of
                      None \<Rightarrow> acc
                    | Some e \<Rightarrow> nest_value e p val acc)
       params_to_nest nested"

section \<open>Sample checkpoints\<close>

text \<open>
  Concrete files, decoders and directories on which the theorems below are instantiated.
  \<open>sample_decoder\<close> decodes exactly the four JSON texts that occur in them;
  \<open>sample_max_alloc\<close> is an allocator that grants up to 8 GiB. \<open>oversized_checkpoint\<close>
  announces a header of \<open>2\<^sup>6\<^sup>4 - 1\<close> bytes and holds the two bytes of an empty JSON object.
\<close>

definition sample_max_alloc :: nat where
  "sample_max_alloc = 2 ^ 33"

definition encode :: "string \<Rightarrow> byte list" where
  "encode s = map (\<lambda>c. of_nat (of_char c)) s"

definition sample_header_text :: string where
  \<open>sample_header_text = ''{"__metadata__":{},"w":{}}''\<close>

definition sample_checkpoint :: "byte list" where
  "sample_checkpoint = [26, 0, 0, 0, 0, 0, 0, 0] @ encode sample_header_text @ [1, 2, 3, 4]"

definition oversized_checkpoint :: "byte list" where
  "oversized_checkpoint = [255, 255, 255, 255, 255, 255, 255, 255] @ encode ''{}''"

definition sample_index_text :: string where
  \<open>sample_index_text = ''{"weight_map":{"a":"f1","b":"f1","c":"f2"}}''\<close>

definition odd_index_text :: string where
  \<open>odd_index_text = ''{"weight_map":{"__metadata__":"f1","a":"f1"}}''\<close>

definition sample_decoder :: "byte list \<Rightarrow> json option" where
  "sample_decoder b =
     (if b = encode sample_header_text then
        Some (JObj [(''__metadata__'', JObj []), (''w'', JObj [])])
      else if b = encode sample_index_text then
        Some (JObj [(''weight_map'', JObj [(''a'', JStr ''f1''), (''b'', JStr ''f1''), (''c'', JStr ''f2'')])])
      else if b = encode odd_index_text then
        Some (JObj [(''weight_map'', JObj [(''__metadata__'', JStr ''f1''), (''a'', JStr ''f1'')])])
      else if b = encode ''{}'' then Some (JObj [])
      else None)"

definition sample_fs :: filesystem where
  "sample_fs p =
     (if p \<in> {''single'', ''sharded'', ''both'', ''odd'', ''bare''} then Some Dir
      else if p \<in> {''single/model.safetensors'', ''both/model.safetensors''}
        then Some (File sample_checkpoint)
      else if p \<in> {''sharded/model.safetensors.index.json'', ''both/model.safetensors.index.json''}
        then Some (File (encode sample_index_text))
      else if p = ''odd/model.safetensors.index.json'' then Some (File (encode odd_index_text))
      else if p = ''cut.safetensors'' then Some (File [26, 0, 0])
      else if p = ''oversized.safetensors'' then Some (File oversized_checkpoint)
      else None)"

text \<open>
  The stacked-compressor scenario: the flat names of one layer after a quantization
  pass and a sparsity pass, and the suffixes of the quantization pass.
\<close>

definition stacked_state_dict :: "(string, string) dict" where
  "stacked_state_dict =
     [(''layer.weight_scale'', ''A''), (''layer.zero_point'', ''B''),
      (''layer.bitmask'', ''C''), (''layer.shape'', ''D'')]"

definition quantization_params :: "string list" where
  "quantization_params = [''weight_scale'', ''zero_point'']"

text \<open>
  An engine for the patterns outside the fragment that finds no match in any string:
  what \<open>re.findall\<close> returns wherever the pattern does not match. The character class
  \<^verbatim>\<open>[b]\<close> is outside the fragment and matches none of the sample names below.
\<close>

definition no_match :: re_engine where
  "no_match pattern s = Inr []"

definition bare_state_dict :: "(string, nat) dict" where
  "bare_state_dict = [(''layer.w'', 1), (''.w'', 2), (''w'', 3)]"

definition class_params :: "string list" where
  "class_params = [''w'', ''[b]'']"

section \<open>Properties of the dense compressor\<close>

lemma decompress_from_state_dict_items: "decompress_from_state_dict sd = sd"
  by (induction sd rule: decompress_from_state_dict.induct) simp_all

text \<open>
  C10: for every state dict \<open>sd\<close>, \<open>compress\<close> returns \<open>sd\<close> itself,
  \<open>decompress_from_state_dict\<close> yields exactly the pairs of \<open>sd\<close> in their order, and
  so compressing and then decompressing reproduces \<open>sd\<close>.
\<close>

theorem dense_compress_decompress_identity:
  "compress sd = sd
   \<and> decompress_from_state_dict sd = sd
   \<and> decompress_from_state_dict (compress sd) = sd"
  by (simp add: compress_def decompress_from_state_dict_items)

section \<open>Properties of the header reader and the location resolver\<close>

subsection \<open>Auxiliary facts\<close>

lemma map_ran_delete: "AList.map_ran f (AList.delete k al) = AList.delete k (AList.map_ran f al)"
  by (induction al) auto

lemma map_ran_map_ran:
  "AList.map_ran f (AList.map_ran g al) = AList.map_ran (\<lambda>k v. f k (g k v)) al"
  by (induction al) auto

lemma join_point_header_at:
  "join_locations path (point_header_at name d) = point_header_at (os_path_join path name) d"
  by (simp add: join_locations_def point_header_at_def map_ran_delete map_ran_map_ran)

lemma point_header_at_no_metadata: "''__metadata__'' \<notin> fst ` set (point_header_at loc d)"
  unfolding point_header_at_def by (rule AList.delete_notin_dom)

lemma keys_join_locations: "map fst (join_locations path d) = map fst d"
  by (simp add: join_locations_def)

lemma str_values_keys: "str_values d = Inr h \<Longrightarrow> map fst h = map fst d"
  by (induction d arbitrary: h rule: str_values.induct) (auto split: sum.splits)

lemma str_values_JStr: "str_values (map (\<lambda>(name, rel). (name, JStr rel)) wm) = Inr wm"
  by (induction wm) auto

lemma join_locations_map:
  "join_locations path wm = map (\<lambda>(name, rel). (name, os_path_join path rel)) wm"
  by (induction wm) (auto simp: join_locations_def)

lemma isfile_exists: "os_path_isfile fs p \<Longrightarrow> os_path_exists fs p"
  by (auto simp: os_path_isfile_def os_path_exists_def split: option.splits)

subsection \<open>The sample files, evaluated\<close>

lemma sample_checkpoint_prologue: "take 8 sample_checkpoint = [26, 0, 0, 0, 0, 0, 0, 0]"
  by (simp add: sample_checkpoint_def)

lemma sample_checkpoint_header:
  "take 26 (drop 8 sample_checkpoint) = encode sample_header_text"
  by (simp add: sample_checkpoint_def encode_def sample_header_text_def)

lemma sample_unpack: "unpack_le_uint64 [26, 0, 0, 0, 0, 0, 0, 0] = Inr 26"
  by (simp add: unpack_le_uint64_def)

lemma sample_read_prologue:
  "file_read sample_max_alloc 8 sample_checkpoint = Inr [26, 0, 0, 0, 0, 0, 0, 0]"
  by (simp add: file_read_def PY_SSIZE_T_MAX_def sample_max_alloc_def sample_checkpoint_prologue)

lemma sample_read_header:
  "file_read sample_max_alloc 26 (drop 8 sample_checkpoint) = Inr (encode sample_header_text)"
  by (simp add: file_read_def PY_SSIZE_T_MAX_def sample_max_alloc_def sample_checkpoint_header)

lemma sample_decoder_header:
  "sample_decoder (encode sample_header_text) = Some (JObj [(''__metadata__'', JObj []), (''w'', JObj [])])"
  by (simp add: sample_decoder_def)

lemma sample_decoder_index:
  "sample_decoder (encode sample_index_text) =
     Some (JObj [(''weight_map'', JObj [(''a'', JStr ''f1''), (''b'', JStr ''f1''), (''c'', JStr ''f2'')])])"
  by (simp add: sample_decoder_def encode_def sample_index_text_def sample_header_text_def)

lemma sample_decoder_odd:
  "sample_decoder (encode odd_index_text) =
     Some (JObj [(''weight_map'', JObj [(''__metadata__'', JStr ''f1''), (''a'', JStr ''f1'')])])"
  by (simp add: sample_decoder_def encode_def sample_index_text_def sample_header_text_def odd_index_text_def)

lemma sample_header_read:
  "get_safetensors_header sample_max_alloc sample_decoder sample_fs ''single/model.safetensors''
     = Inr (JObj [(''__metadata__'', JObj []), (''w'', JObj [])])"
  by (simp add: get_safetensors_header_def open_read_def sample_fs_def
      sample_read_prologue sample_unpack sample_read_header sample_decoder_header)

lemma sample_both_header_read:
  "get_safetensors_header sample_max_alloc sample_decoder sample_fs ''both/model.safetensors''
     = Inr (JObj [(''__metadata__'', JObj []), (''w'', JObj [])])"
  by (simp add: get_safetensors_header_def open_read_def sample_fs_def
      sample_read_prologue sample_unpack sample_read_header sample_decoder_header)

lemma sample_single_file: "os_path_isfile sample_fs ''single/model.safetensors''"
  by (simp add: os_path_isfile_def sample_fs_def)

lemma join_single: "os_path_join ''single'' SAFE_WEIGHTS_NAME = ''single/model.safetensors''"
  by (simp add: os_path_join_def SAFE_WEIGHTS_NAME_def)

lemma join_sharded_index:
  "os_path_join ''sharded'' SAFE_WEIGHTS_INDEX_NAME = ''sharded/model.safetensors.index.json''"
  by (simp add: os_path_join_def SAFE_WEIGHTS_INDEX_NAME_def)

subsection \<open>The header reader\<close>








subsection \<open>The location resolver\<close>

text \<open>
  C8: a path that is not a file and under which neither the canonical single-shard
  file nor the index file exists (in particular a directory holding neither) makes
  \<open>get_weight_mappings\<close> raise \<open>ValueError\<close>, the spec's \<open>CheckpointNotFound\<close>; an
  \<open>Inl\<close> result carries no mapping.
\<close>

theorem missing_checkpoint_raises:
  assumes "\<not> os_path_isfile fs path"
      and "\<not> os_path_exists fs (os_path_join path SAFE_WEIGHTS_NAME)"
      and "\<not> os_path_exists fs (os_path_join path SAFE_WEIGHTS_INDEX_NAME)"
  shows "get_weight_mappings max_alloc json_loads json_load fs path = Inl ValueError"
  using assms by (simp add: get_weight_mappings_def Let_def)

theorem missing_checkpoint_raises_witness:
  "\<not> os_path_isfile sample_fs ''bare''
   \<and> \<not> os_path_exists sample_fs (os_path_join ''bare'' SAFE_WEIGHTS_NAME)
   \<and> \<not> os_path_exists sample_fs (os_path_join ''bare'' SAFE_WEIGHTS_INDEX_NAME)
   \<and> get_weight_mappings sample_max_alloc sample_decoder sample_decoder sample_fs ''bare'' = Inl ValueError"
proof -
  have a: "\<not> os_path_isfile sample_fs ''bare''"
    by (simp add: os_path_isfile_def sample_fs_def)
  have b: "\<not> os_path_exists sample_fs (os_path_join ''bare'' SAFE_WEIGHTS_NAME)"
    by (simp add: os_path_exists_def os_path_join_def SAFE_WEIGHTS_NAME_def sample_fs_def)
  have c: "\<not> os_path_exists sample_fs (os_path_join ''bare'' SAFE_WEIGHTS_INDEX_NAME)"
    by (simp add: os_path_exists_def os_path_join_def SAFE_WEIGHTS_INDEX_NAME_def sample_fs_def)
  from missing_checkpoint_raises [OF a b c] a b c show ?thesis by simp
qed

text \<open>
  C5: resolving the file \<open>os.path.join(dir, SAFE_WEIGHTS_NAME)\<close> directly and resolving
  the directory \<open>dir\<close> that holds it give the same result, whatever the header is:
  the same keys with the same locations, or the same exception.
\<close>

theorem single_file_directory_equivalence:
  assumes "\<not> os_path_isfile fs dir"
      and "os_path_isfile fs (os_path_join dir SAFE_WEIGHTS_NAME)"
  shows "get_weight_mappings max_alloc json_loads json_load fs (os_path_join dir SAFE_WEIGHTS_NAME)
       = get_weight_mappings max_alloc json_loads json_load fs dir"
  using assms isfile_exists[OF assms(2)]
  by (auto simp: get_weight_mappings_def Let_def join_point_header_at split: sum.splits)

theorem single_file_directory_equivalence_witness:
  "\<not> os_path_isfile sample_fs ''single''
   \<and> os_path_isfile sample_fs (os_path_join ''single'' SAFE_WEIGHTS_NAME)
   \<and> get_weight_mappings sample_max_alloc sample_decoder sample_decoder sample_fs ''single/model.safetensors''
       = Inr [(''w'', ''single/model.safetensors'')]
   \<and> get_weight_mappings sample_max_alloc sample_decoder sample_decoder sample_fs ''single''
       = Inr [(''w'', ''single/model.safetensors'')]"
proof -
  have d: "\<not> os_path_isfile sample_fs ''single''"
    by (simp add: os_path_isfile_def sample_fs_def)
  have f: "os_path_isfile sample_fs (os_path_join ''single'' SAFE_WEIGHTS_NAME)"
    by (simp add: join_single sample_single_file)
  have direct: "get_weight_mappings sample_max_alloc sample_decoder sample_decoder sample_fs ''single/model.safetensors''
       = Inr [(''w'', ''single/model.safetensors'')]"
    by (simp add: get_weight_mappings_def sample_single_file sample_header_read header_dict_def
        point_header_at_def)
  from single_file_directory_equivalence [OF d f, of sample_max_alloc sample_decoder sample_decoder] direct
  have "get_weight_mappings sample_max_alloc sample_decoder sample_decoder sample_fs ''single''
       = Inr [(''w'', ''single/model.safetensors'')]"
    by (simp add: join_single)
  with d f direct show ?thesis by simp
qed

text \<open>
  C4, as stated, fails: a directory that holds an index file and also the canonical
  single-shard file is resolved from the single-shard file's header, and the index is
  never opened. In the sample directory \<open>both\<close> the index declares \<open>a\<close>, \<open>b\<close>, \<open>c\<close>
  and the result has the one key \<open>w\<close>.
\<close>

theorem index_ignored_beside_canonical_file:
  "sample_fs ''both'' = Some Dir
   \<and> sample_fs (os_path_join ''both'' SAFE_WEIGHTS_INDEX_NAME) = Some (File (encode sample_index_text))
   \<and> sample_decoder (encode sample_index_text)
       = Some (JObj [(''weight_map'', JObj [(''a'', JStr ''f1''), (''b'', JStr ''f1''), (''c'', JStr ''f2'')])])
   \<and> get_weight_mappings sample_max_alloc sample_decoder sample_decoder sample_fs ''both''
       = Inr [(''w'', ''both/model.safetensors'')]"
proof -
  have "sample_fs ''both'' = Some Dir"
    by (simp add: sample_fs_def)
  moreover have "sample_fs (os_path_join ''both'' SAFE_WEIGHTS_INDEX_NAME) = Some (File (encode sample_index_text))"
    by (simp add: os_path_join_def SAFE_WEIGHTS_INDEX_NAME_def sample_fs_def)
  moreover have "os_path_join ''both'' SAFE_WEIGHTS_NAME = ''both/model.safetensors''"
    by (simp add: os_path_join_def SAFE_WEIGHTS_NAME_def)
  moreover have "\<not> os_path_isfile sample_fs ''both''"
    by (simp add: os_path_isfile_def sample_fs_def)
  moreover have "os_path_exists sample_fs ''both/model.safetensors''"
    by (simp add: os_path_exists_def sample_fs_def)
  moreover have "join_locations ''both'' (point_header_at SAFE_WEIGHTS_NAME [(''__metadata__'', JObj []), (''w'', JObj [])])
      = [(''w'', ''both/model.safetensors'')]"
    by (simp add: join_locations_def point_header_at_def os_path_join_def SAFE_WEIGHTS_NAME_def)
  ultimately show ?thesis
    by (simp add: get_weight_mappings_def Let_def sample_both_header_read header_dict_def
        sample_decoder_index)
qed

text \<open>
  C4, amended: for a directory that does not hold the canonical single-shard file and
  holds an index whose \<open>weight_map\<close> maps names to filenames, the result has exactly
  the \<open>weight_map\<close>'s keys, in its order, each with \<open>os.path.join\<close> of the directory and
  that key's filename.
\<close>

theorem index_directory_locations:
  assumes "\<not> os_path_isfile fs dir"
      and "\<not> os_path_exists fs (os_path_join dir SAFE_WEIGHTS_NAME)"
      and "fs (os_path_join dir SAFE_WEIGHTS_INDEX_NAME) = Some (File content)"
      and "json_load content = Some (JObj entries)"
      and "map_of entries ''weight_map'' = Some (JObj (map (\<lambda>(name, rel). (name, JStr rel)) weight_map))"
  shows "get_weight_mappings max_alloc json_loads json_load fs dir
       = Inr (map (\<lambda>(name, rel). (name, os_path_join dir rel)) weight_map)"
  using assms
  by (simp add: get_weight_mappings_def Let_def os_path_exists_def open_read_def
      index_weight_map_def header_dict_def str_values_JStr join_locations_map)

theorem index_directory_locations_witness:
  "\<not> os_path_isfile sample_fs ''sharded''
   \<and> \<not> os_path_exists sample_fs (os_path_join ''sharded'' SAFE_WEIGHTS_NAME)
   \<and> sample_fs (os_path_join ''sharded'' SAFE_WEIGHTS_INDEX_NAME) = Some (File (encode sample_index_text))
   \<and> get_weight_mappings sample_max_alloc sample_decoder sample_decoder sample_fs ''sharded''
       = Inr [(''a'', ''sharded/f1''), (''b'', ''sharded/f1''), (''c'', ''sharded/f2'')]"
proof -
  have a: "\<not> os_path_isfile sample_fs ''sharded''"
    by (simp add: os_path_isfile_def sample_fs_def)
  have b: "\<not> os_path_exists sample_fs (os_path_join ''sharded'' SAFE_WEIGHTS_NAME)"
    by (simp add: os_path_exists_def os_path_join_def SAFE_WEIGHTS_NAME_def sample_fs_def)
  have c: "sample_fs (os_path_join ''sharded'' SAFE_WEIGHTS_INDEX_NAME) = Some (File (encode sample_index_text))"
    by (simp add: join_sharded_index sample_fs_def)
  have e: "map_of [(''weight_map'', JObj [(''a'', JStr ''f1''), (''b'', JStr ''f1''), (''c'', JStr ''f2'')])] ''weight_map''
      = Some (JObj (map (\<lambda>(name, rel). (name, JStr rel)) [(''a'', ''f1''), (''b'', ''f1''), (''c'', ''f2'')]))"
    by simp
  from index_directory_locations [where fs = sample_fs and dir = "''sharded''"
      and json_load = sample_decoder and json_loads = sample_decoder, OF a b c sample_decoder_index e]
  have "get_weight_mappings sample_max_alloc sample_decoder sample_decoder sample_fs ''sharded''
       = Inr [(''a'', ''sharded/f1''), (''b'', ''sharded/f1''), (''c'', ''sharded/f2'')]"
    by (simp add: os_path_join_def)
  with a b c show ?thesis by simp
qed

text \<open>
  C6, as stated, fails on the index branch: the \<open>weight_map\<close> is used verbatim, so a
  key \<open>__metadata__\<close> in it stays in the result. The sample directory \<open>odd\<close> holds
  such an index.
\<close>

theorem index_metadata_key_kept:
  "sample_fs ''odd'' = Some Dir
   \<and> get_weight_mappings sample_max_alloc sample_decoder sample_decoder sample_fs ''odd''
       = Inr [(''__metadata__'', ''odd/f1''), (''a'', ''odd/f1'')]"
proof -
  have "sample_fs ''odd'' = Some Dir"
    by (simp add: sample_fs_def)
  moreover have "\<not> os_path_isfile sample_fs ''odd''"
    by (simp add: os_path_isfile_def sample_fs_def)
  moreover have "os_path_join ''odd'' SAFE_WEIGHTS_NAME = ''odd/model.safetensors''"
    by (simp add: os_path_join_def SAFE_WEIGHTS_NAME_def)
  moreover have "os_path_join ''odd'' SAFE_WEIGHTS_INDEX_NAME = ''odd/model.safetensors.index.json''"
    by (simp add: os_path_join_def SAFE_WEIGHTS_INDEX_NAME_def)
  moreover have "\<not> os_path_exists sample_fs ''odd/model.safetensors''"
    by (simp add: os_path_exists_def sample_fs_def)
  moreover have "os_path_exists sample_fs ''odd/model.safetensors.index.json''"
    by (simp add: os_path_exists_def sample_fs_def)
  moreover have "open_read sample_fs ''odd/model.safetensors.index.json'' = Inr (encode odd_index_text)"
    by (simp add: open_read_def sample_fs_def)
  moreover have "join_locations ''odd'' [(''__metadata__'', ''f1''), (''a'', ''f1'')]
      = [(''__metadata__'', ''odd/f1''), (''a'', ''odd/f1'')]"
    by (simp add: join_locations_def os_path_join_def)
  ultimately show ?thesis
    by (simp add: get_weight_mappings_def Let_def sample_decoder_odd index_weight_map_def
        header_dict_def)
qed

text \<open>
  C6, amended: a mapping resolved from a checkpoint header (a single file, or a
  directory holding the canonical single-shard file) never has the key
  \<open>__metadata__\<close>; a mapping resolved from an index has exactly the keys of the index's
  \<open>weight_map\<close>, so it has that key exactly when the \<open>weight_map\<close> declares it.
\<close>

theorem metadata_key_excluded:
  assumes "get_weight_mappings max_alloc json_loads json_load fs path = Inr wm"
  shows "(os_path_isfile fs path \<or> os_path_exists fs (os_path_join path SAFE_WEIGHTS_NAME)
            \<longrightarrow> ''__metadata__'' \<notin> fst ` set wm)
       \<and> (\<not> os_path_isfile fs path \<and> \<not> os_path_exists fs (os_path_join path SAFE_WEIGHTS_NAME)
            \<longrightarrow> (\<exists>content entries d.
                   open_read fs (os_path_join path SAFE_WEIGHTS_INDEX_NAME) = Inr content
                 \<and> json_load content = Some (JObj entries)
                 \<and> map_of entries ''weight_map'' = Some (JObj d)
                 \<and> map fst wm = map fst d))"
proof (intro conjI impI)
  assume "os_path_isfile fs path \<or> os_path_exists fs (os_path_join path SAFE_WEIGHTS_NAME)"
  then consider (single) "os_path_isfile fs path"
    | (canon) "\<not> os_path_isfile fs path" "os_path_exists fs (os_path_join path SAFE_WEIGHTS_NAME)"
    by blast
  then show "''__metadata__'' \<notin> fst ` set wm"
  proof cases
    case single
    with assms obtain d where "wm = point_header_at path d"
      by (auto simp: get_weight_mappings_def split: sum.splits)
    then show ?thesis by (simp only: point_header_at_no_metadata not_False_eq_True)
  next
    case canon
    with assms obtain d where "wm = join_locations path (point_header_at SAFE_WEIGHTS_NAME d)"
      by (auto simp: get_weight_mappings_def Let_def split: sum.splits)
    then have "wm = point_header_at (os_path_join path SAFE_WEIGHTS_NAME) d"
      by (simp add: join_point_header_at)
    then show ?thesis by (simp only: point_header_at_no_metadata not_False_eq_True)
  qed
next
  assume "\<not> os_path_isfile fs path \<and> \<not> os_path_exists fs (os_path_join path SAFE_WEIGHTS_NAME)"
  with assms show "\<exists>content entries d.
                   open_read fs (os_path_join path SAFE_WEIGHTS_INDEX_NAME) = Inr content
                 \<and> json_load content = Some (JObj entries)
                 \<and> map_of entries ''weight_map'' = Some (JObj d)
                 \<and> map fst wm = map fst d"
    by (auto simp: get_weight_mappings_def Let_def index_weight_map_def header_dict_def
          keys_join_locations
        split: sum.splits option.splits if_splits json.splits dest: str_values_keys)
qed

theorem metadata_key_excluded_witness:
  "get_weight_mappings sample_max_alloc sample_decoder sample_decoder sample_fs ''single''
     = Inr [(''w'', ''single/model.safetensors'')]
   \<and> os_path_exists sample_fs (os_path_join ''single'' SAFE_WEIGHTS_NAME)
   \<and> ''__metadata__'' \<notin> fst ` set [(''w'', ''single/model.safetensors'')]
   \<and> get_weight_mappings sample_max_alloc sample_decoder sample_decoder sample_fs ''sharded''
     = Inr [(''a'', ''sharded/f1''), (''b'', ''sharded/f1''), (''c'', ''sharded/f2'')]
   \<and> \<not> os_path_isfile sample_fs ''sharded''
   \<and> \<not> os_path_exists sample_fs (os_path_join ''sharded'' SAFE_WEIGHTS_NAME)
   \<and> (\<exists>content entries d.
         open_read sample_fs (os_path_join ''sharded'' SAFE_WEIGHTS_INDEX_NAME) = Inr content
       \<and> sample_decoder content = Some (JObj entries)
       \<and> map_of entries ''weight_map'' = Some (JObj d)
       \<and> map fst [(''a'', ''sharded/f1''), (''b'', ''sharded/f1''), (''c'', ''sharded/f2'')] = map fst d)"
proof -
  have r1: "get_weight_mappings sample_max_alloc sample_decoder sample_decoder sample_fs ''single''
     = Inr [(''w'', ''single/model.safetensors'')]"
    by (simp add: get_weight_mappings_def Let_def os_path_isfile_def os_path_exists_def
        join_single sample_header_read header_dict_def join_locations_def point_header_at_def
        os_path_join_def SAFE_WEIGHTS_NAME_def sample_fs_def)
  have e1: "os_path_exists sample_fs (os_path_join ''single'' SAFE_WEIGHTS_NAME)"
    by (simp add: join_single os_path_exists_def sample_fs_def)
  have a: "\<not> os_path_isfile sample_fs ''sharded''"
    by (simp add: os_path_isfile_def sample_fs_def)
  have b: "\<not> os_path_exists sample_fs (os_path_join ''sharded'' SAFE_WEIGHTS_NAME)"
    by (simp add: os_path_exists_def os_path_join_def SAFE_WEIGHTS_NAME_def sample_fs_def)
  have r2: "get_weight_mappings sample_max_alloc sample_decoder sample_decoder sample_fs ''sharded''
     = Inr [(''a'', ''sharded/f1''), (''b'', ''sharded/f1''), (''c'', ''sharded/f2'')]"
  proof -
    have "os_path_exists sample_fs (os_path_join ''sharded'' SAFE_WEIGHTS_INDEX_NAME)"
      by (simp add: join_sharded_index os_path_exists_def sample_fs_def)
    moreover have "open_read sample_fs (os_path_join ''sharded'' SAFE_WEIGHTS_INDEX_NAME)
        = Inr (encode sample_index_text)"
      by (simp add: join_sharded_index open_read_def sample_fs_def)
    moreover have "join_locations ''sharded'' [(''a'', ''f1''), (''b'', ''f1''), (''c'', ''f2'')]
        = [(''a'', ''sharded/f1''), (''b'', ''sharded/f1''), (''c'', ''sharded/f2'')]"
      by (simp add: join_locations_def os_path_join_def)
    ultimately show ?thesis using a b
      by (simp add: get_weight_mappings_def Let_def sample_decoder_index index_weight_map_def
          header_dict_def)
  qed
  from metadata_key_excluded [OF r1] e1
  have "''__metadata__'' \<notin> fst ` set [(''w'', ''single/model.safetensors'')]"
    by blast
  moreover from metadata_key_excluded [OF r2] a b
  have "\<exists>content entries d.
         open_read sample_fs (os_path_join ''sharded'' SAFE_WEIGHTS_INDEX_NAME) = Inr content
       \<and> sample_decoder content = Some (JObj entries)
       \<and> map_of entries ''weight_map'' = Some (JObj d)
       \<and> map fst [(''a'', ''sharded/f1''), (''b'', ''sharded/f1''), (''c'', ''sharded/f2'')] = map fst d"
    by blast
  ultimately show ?thesis using r1 e1 r2 a b by blast
qed

section \<open>Properties of the name codec\<close>

subsection \<open>Parameter names without special characters\<close>

text \<open>
  When no character of the parameter name is in \<open>SPECIAL_CHARS\<close>, the pattern tail
  compiles to the literal characters of \<open>"." + param_name\<close> followed by the end anchor,
  and a match splits the full name into the returned entity and that literal tail,
  possibly followed by one final newline.
\<close>

lemma tok_of_literal: "c \<notin> set SPECIAL_CHARS \<Longrightarrow> tok_of c = TAtom (Lit c)"
  by (auto simp: tok_of_def SPECIAL_CHARS_def)

lemma literal_not_backslash: "c \<notin> set SPECIAL_CHARS \<Longrightarrow> c \<noteq> backslash"
  by (auto simp: SPECIAL_CHARS_def)

lemma lex_literal:
  "\<forall>c \<in> set s. c \<notin> set SPECIAL_CHARS \<Longrightarrow> lex (s @ ''$'') = map (\<lambda>c. TAtom (Lit c)) s @ [TEnd]"
proof (induction s)
  case Nil
  show ?case by (simp add: tok_of_def backslash_def)
next
  case (Cons c s)
  from Cons.prems have c: "tok_of c = TAtom (Lit c)" "c \<noteq> backslash"
    by (simp_all add: tok_of_literal literal_not_backslash)
  from Cons.prems have rest: "lex (s @ ''$'') = map (\<lambda>c. TAtom (Lit c)) s @ [TEnd]"
    by (simp add: Cons.IH)
  obtain d ds where d: "s @ ''$'' = d # ds" by (cases s) auto
  have "lex (c # d # ds) = tok_of c # lex (d # ds)"
    using c(2) by simp
  with c(1) rest d show ?case by simp
qed

lemma compile_items_literal:
  "compile_items (map (\<lambda>c. TAtom (Lit c)) w @ [TEnd]) = Some (map (\<lambda>c. (Lit c, One)) w, True)"
proof (induction w)
  case Nil
  show ?case by simp
next
  case (Cons c w)
  then show ?case by (cases w) simp_all
qed

lemma compile_tail_literal:
  assumes "\<forall>c \<in> set s. c \<notin> set SPECIAL_CHARS"
  shows "compile_tail s = Some (map (\<lambda>c. (Lit c, One)) (CHR ''.'' # s), True)"
proof -
  obtain d ds where "s @ ''$'' = d # ds" by (cases s) auto
  then have "lex (backslash # CHR ''.'' # s @ ''$'') = TAtom (Lit CHR ''.'') # lex (s @ ''$'')"
    by (simp add: ascii_alnum_def)
  with lex_literal [OF assms] compile_items_literal [of "CHR ''.'' # s"]
  show ?thesis by (simp add: compile_tail_def)
qed

lemma matches_tail_literal:
  "matches_tail (map (\<lambda>c. (Lit c, One)) w) True s \<longleftrightarrow> s = w \<or> s = w @ [newline]"
proof (induction w arbitrary: s)
  case Nil
  show ?case by auto
next
  case (Cons c w)
  show ?case by (cases s) (auto simp: Cons.IH)
qed

lemma dotstar_group_sound:
  "dotstar_group items anchored s = Some g \<Longrightarrow>
     \<exists>r. s = g @ r \<and> matches_tail items anchored r \<and> newline \<notin> set g"
proof (induction s arbitrary: g)
  case Nil
  then show ?case by (auto split: if_splits)
next
  case (Cons x s)
  show ?case
  proof (cases "if x = newline then None else dotstar_group items anchored s")
    case None
    with Cons.prems have "g = []" "matches_tail items anchored (x # s)"
      by (auto split: if_splits)
    then show ?thesis by simp
  next
    case (Some h)
    with Cons.prems have g: "g = x # h" and x: "x \<noteq> newline"
      and h: "dotstar_group items anchored s = Some h"
      by (auto split: if_splits)
    from Cons.IH [OF h] obtain r where "s = h @ r" "matches_tail items anchored r" "newline \<notin> set h"
      by blast
    with g x show ?thesis by auto
  qed
qed

lemma dotstar_group_complete:
  "matches_tail items anchored r \<Longrightarrow> newline \<notin> set g \<Longrightarrow>
     \<exists>h. dotstar_group items anchored (g @ r) = Some h \<and> length g \<le> length h"
proof (induction g)
  case Nil
  then show ?case by (cases r) (auto split: option.splits)
next
  case (Cons x g)
  then show ?case by (auto split: option.splits)
qed

text \<open>
  Inside the fragment \<open>match_param_name\<close> does not raise, returns a string, and does not
  depend on the engine for the other patterns.
\<close>

lemma match_param_name_in_fragment:
  assumes "compile_tail param_name = Some (items, anchored)"
  shows "match_param_name re_rest full_name param_name =
           Inr (map_option Str (dotstar_group items anchored full_name))"
  using assms
  by (simp add: match_param_name_def re_findall_def Let_def split: option.splits)

lemma match_param_name_engine_irrelevant:
  assumes "compile_tail param_name \<noteq> None"
  shows "match_param_name re_rest full_name param_name
       = match_param_name re_rest' full_name param_name"
proof -
  from assms obtain items anchored where "compile_tail param_name = Some (items, anchored)"
    by auto
  then show ?thesis by (simp only: match_param_name_in_fragment)
qed

lemma match_param_name_literal:
  assumes "\<forall>c \<in> set s. c \<notin> set SPECIAL_CHARS"
  shows "match_param_name re_rest full_name s =
           Inr (map_option Str
                  (dotstar_group (map (\<lambda>c. (Lit c, One)) (CHR ''.'' # s)) True full_name))"
  using compile_tail_literal [OF assms] by (rule match_param_name_in_fragment)

lemma match_param_name_literal_sound:
  assumes "\<forall>c \<in> set s. c \<notin> set SPECIAL_CHARS"
      and "match_param_name re_rest full_name s = Inr (Some m)"
  shows "\<exists>g. m = Str g \<and> (full_name = g @ ''.'' @ s \<or> full_name = g @ ''.'' @ s @ [newline])"
proof -
  from assms(2) obtain g where g: "m = Str g"
    and d: "dotstar_group (map (\<lambda>c. (Lit c, One)) (CHR ''.'' # s)) True full_name = Some g"
    by (auto simp: match_param_name_literal [OF assms(1)])
  from dotstar_group_sound [OF d] obtain r where r: "full_name = g @ r"
    and m: "matches_tail (map (\<lambda>c. (Lit c, One)) (CHR ''.'' # s)) True r"
    by blast
  from m have "r = CHR ''.'' # s \<or> r = (CHR ''.'' # s) @ [newline]"
    by (simp only: matches_tail_literal)
  with r have "full_name = g @ ''.'' @ s \<or> full_name = g @ ''.'' @ s @ [newline]" by auto
  with g show ?thesis by simp
qed

lemma match_param_name_literal_defined:
  assumes "\<forall>c \<in> set s. c \<notin> set SPECIAL_CHARS"
  shows "match_param_name re_rest full_name s \<noteq> Inl e"
  by (simp add: match_param_name_literal [OF assms])

lemma match_param_name_literal_complete:
  assumes "\<forall>c \<in> set s. c \<notin> set SPECIAL_CHARS" and "newline \<notin> set g"
  shows "match_param_name re_rest (g @ ''.'' @ s) s = Inr (Some (Str g))"
proof -
  let ?items = "map (\<lambda>c. (Lit c, One)) (CHR ''.'' # s)"
  have "matches_tail ?items True (CHR ''.'' # s)"
    by (simp only: matches_tail_literal) simp
  then have "matches_tail ?items True (''.'' @ s)"
    by simp
  from dotstar_group_complete [OF this assms(2)] obtain h
    where h: "dotstar_group ?items True (g @ ''.'' @ s) = Some h" and len: "length g \<le> length h"
    by blast
  from dotstar_group_sound [OF h] obtain r where r: "g @ ''.'' @ s = h @ r"
    and m: "matches_tail ?items True r" by blast
  from m have "r = CHR ''.'' # s \<or> r = (CHR ''.'' # s) @ [newline]"
    by (simp only: matches_tail_literal)
  with r len have "h = g"
    by (auto dest: arg_cong [where f = length])
  with h show ?thesis
    by (simp add: match_param_name_literal [OF assms(1)])
qed

subsection \<open>Parameter names with special characters\<close>

text \<open>
  C2: \<open>match_param_name(merge_names(e, s), s)\<close> should return \<open>e\<close> for every suffix \<open>s\<close>.
  The code does not: \<open>merge_names("layer", "scale+shift")\<close> is \<open>"layer.scale+shift"\<close>, and
  \<open>match_param_name\<close> of it with the same suffix returns \<open>None\<close>, because the \<open>+\<close> of the
  suffix is read as a repeat of the character before it. The theorem evaluates the code at
  this input; the suffix is inside the modelled fragment, so the result is that of the
  code whatever \<open>re_rest\<close> is.
\<close>

theorem merge_then_match_fails_on_metacharacter:
  "merge_names ''layer'' ''scale+shift'' = ''layer.scale+shift''
   \<and> match_param_name re_rest (merge_names ''layer'' ''scale+shift'') ''scale+shift'' = Inr None"
proof -
  have m: "merge_names ''layer'' ''scale+shift'' = ''layer.scale+shift''"
    by (simp add: merge_names_def)
  have "compile_tail ''scale+shift'' \<noteq> None"
    by code_simp
  then have "match_param_name re_rest ''layer.scale+shift'' ''scale+shift''
      = match_param_name no_match ''layer.scale+shift'' ''scale+shift''"
    by (rule match_param_name_engine_irrelevant)
  also have "\<dots> = Inr None"
    by code_simp
  finally show ?thesis using m by simp
qed

text \<open>
  C3: \<open>match_param_name\<close> should succeed exactly on the names that end in the literal
  \<open>"." + suffix\<close>. The code does not: with the suffix \<open>"weight.shape"\<close> it returns the
  entity \<open>"layer"\<close> for the name \<open>"layer.weight_shape"\<close>, which does not end in
  \<open>".weight.shape"\<close>, because the dot of the suffix matches any character. The theorem
  evaluates the code at this input; the suffix is inside the modelled fragment, so the
  result is that of the code whatever \<open>re_rest\<close> is.
\<close>

theorem pattern_suffix_matches_other_name:
  "match_param_name re_rest ''layer.weight_shape'' ''weight.shape'' = Inr (Some (Str ''layer''))
   \<and> \<not> suffix (''.'' @ ''weight.shape'') ''layer.weight_shape''"
proof -
  have "compile_tail ''weight.shape'' \<noteq> None"
    by code_simp
  then have "match_param_name re_rest ''layer.weight_shape'' ''weight.shape''
      = match_param_name no_match ''layer.weight_shape'' ''weight.shape''"
    by (rule match_param_name_engine_irrelevant)
  also have "\<dots> = Inr (Some (Str ''layer''))"
    by code_simp
  finally have "match_param_name re_rest ''layer.weight_shape'' ''weight.shape''
      = Inr (Some (Str ''layer''))" .
  moreover have "\<not> suffix (''.'' @ ''weight.shape'') ''layer.weight_shape''"
    by (simp add: suffix_def)
  ultimately show ?thesis by simp
qed

section \<open>Properties of the name grouper\<close>

subsection \<open>The loops, one key at a time\<close>

lemma nest_params_result:
  "nest_params re_rest key v ps (n, m) = Inr (n', m') \<Longrightarrow>
     n' = filed re_rest key v ps n \<and> m' = (m \<or> (\<exists>p \<in> set ps. module_path_of re_rest key p \<noteq> None))"
proof (induction ps arbitrary: n m)
  case Nil
  then show ?case by (simp add: filed_def)
next
  case (Cons p ps)
  show ?case
  proof (cases "module_path_of re_rest key p")
    case None
    with Cons.prems have "nest_params re_rest key v ps (n, m) = Inr (n', m')"
      by (auto simp: module_path_of_def split: sum.splits option.splits if_splits)
    from Cons.IH [OF this] None show ?thesis by (simp add: filed_def)
  next
    case (Some e)
    with Cons.prems have "nest_params re_rest key v ps (nest_value e p v n, True) = Inr (n', m')"
      by (auto simp: module_path_of_def split: sum.splits option.splits if_splits)
    from Cons.IH [OF this] Some show ?thesis by (simp add: filed_def)
  qed
qed

lemma nest_items_step:
  assumes "nest_items re_rest ps ru ((k, v) # xs) (n, u) = Inr r"
  shows "nest_items re_rest ps ru xs
           (filed re_rest k v ps n,
            if ru \<and> (\<forall>p \<in> set ps. module_path_of re_rest k p = None) then AList.update k v u else u)
         = Inr r"
proof -
  from assms obtain n1 m1 where np: "nest_params re_rest k v ps (n, False) = Inr (n1, m1)"
    and rest: "nest_items re_rest ps ru xs (n1, if ru \<and> \<not> m1 then AList.update k v u else u) = Inr r"
    by (auto split: sum.splits)
  from nest_params_result [OF np] have "n1 = filed re_rest k v ps n"
    and "m1 = (\<exists>p \<in> set ps. module_path_of re_rest k p \<noteq> None)" by simp_all
  with rest show ?thesis by simp
qed

lemma lookup_slot_nest_value:
  "lookup_slot (nest_value e p v n) e' p' =
     (if e' = e \<and> p' = p then Some v else lookup_slot n e' p')"
  by (auto simp: lookup_slot_def nest_value_def AList.update_conv' split: option.splits)

lemma lookup_slot_filed:
  "lookup_slot (filed re_rest k v ps n) e p =
     (if p \<in> set ps \<and> module_path_of re_rest k p = Some e then Some v else lookup_slot n e p)"
proof (induction ps arbitrary: n)
  case Nil
  show ?case by (simp add: filed_def)
next
  case (Cons q ps)
  have "filed re_rest k v (q # ps) n =
      filed re_rest k v ps (case module_path_of re_rest k q of None \<Rightarrow> n | Some e \<Rightarrow> nest_value e q v n)"
    by (simp add: filed_def)
  then show ?case
    by (auto simp: Cons.IH lookup_slot_nest_value split: option.splits)
qed

lemma filed_no_hit: "\<forall>p \<in> set ps. module_path_of re_rest k p = None \<Longrightarrow> filed re_rest k v ps n = n"
  by (induction ps arbitrary: n) (simp_all add: filed_def)

lemma nest_value_idem: "nest_value e p v (nest_value e p v n) = nest_value e p v n"
proof (cases "map_of n e")
  case None
  then show ?thesis by (simp add: nest_value_def AList.update_conv')
next
  case (Some inner)
  then show ?thesis by (simp add: nest_value_def AList.update_conv')
qed

lemma filed_absorbs_hit:
  assumes "\<forall>q \<in> set ps. module_path_of re_rest k q \<noteq> None \<longrightarrow> q = p"
    and "module_path_of re_rest k p = Some e"
  shows "filed re_rest k v ps (nest_value e p v n) = nest_value e p v n"
  using assms(1)
proof (induction ps)
  case Nil
  show ?case by (simp add: filed_def)
next
  case (Cons q ps)
  from Cons.prems have rest: "\<forall>q \<in> set ps. module_path_of re_rest k q \<noteq> None \<longrightarrow> q = p"
    by simp
  have ih: "filed re_rest k v ps (nest_value e p v n) = nest_value e p v n"
    using rest by (rule Cons.IH)
  show ?case
  proof (cases "module_path_of re_rest k q")
    case None
    with ih show ?thesis by (simp add: filed_def)
  next
    case (Some e')
    with Cons.prems have q: "q = p" by simp
    with Some assms(2) have e': "e' = e" by simp
    have "filed re_rest k v (q # ps) (nest_value e p v n)
        = filed re_rest k v ps (nest_value e p v (nest_value e p v n))"
      using Some q e' by (simp add: filed_def)
    with ih show ?thesis by (simp only: nest_value_idem)
  qed
qed

lemma filed_same_hit:
  assumes "\<forall>q \<in> set ps. module_path_of re_rest k q \<noteq> None \<longrightarrow> q = p"
    and "module_path_of re_rest k p = Some e"
    and "p \<in> set ps"
  shows "filed re_rest k v ps n = nest_value e p v n"
  using assms(1) assms(3)
proof (induction ps arbitrary: n)
  case Nil
  then show ?case by simp
next
  case (Cons q ps)
  from Cons.prems(1) have rest: "\<forall>q \<in> set ps. module_path_of re_rest k q \<noteq> None \<longrightarrow> q = p"
    by simp
  show ?case
  proof (cases "module_path_of re_rest k q")
    case None
    with assms(2) have "q \<noteq> p" by auto
    with Cons.prems(2) have "p \<in> set ps" by simp
    with rest have "filed re_rest k v ps n = nest_value e p v n" by (rule Cons.IH)
    with None show ?thesis by (simp add: filed_def)
  next
    case (Some e')
    with Cons.prems(1) have q: "q = p" by simp
    with Some assms(2) have e': "e' = e" by simp
    have "filed re_rest k v (q # ps) n = filed re_rest k v ps (nest_value e p v n)"
      using Some q e' by (simp add: filed_def)
    also have "\<dots> = nest_value e p v n"
      using rest assms(2) by (rule filed_absorbs_hit)
    finally show ?thesis .
  qed
qed

lemma update_fresh: "map_of al k = None \<Longrightarrow> AList.update k v al = al @ [(k, v)]"
  by (induction al) (auto split: if_splits)

lemma mset_values_update_fresh:
  "k \<notin> fst ` set u \<Longrightarrow> mset (map snd (AList.update k v u)) = mset (map snd u) + {#v#}"
  by (simp add: update_fresh map_of_eq_None_iff)

lemma mset_nested_values_update:
  "map_of n e = Some i \<Longrightarrow>
     mset (nested_values (AList.update e i' n)) + mset (map snd i)
       = mset (nested_values n) + mset (map snd i')"
  by (induction n) (auto simp: nested_values_def split: if_splits)

lemma mset_nested_values_nest_value:
  assumes "lookup_slot n e p = None"
  shows "mset (nested_values (nest_value e p v n)) = mset (nested_values n) + {#v#}"
proof (cases "map_of n e")
  case None
  then show ?thesis
    by (simp add: nest_value_def update_fresh nested_values_def)
next
  case (Some i)
  with assms have "map_of i p = None" by (simp add: lookup_slot_def)
  then have "AList.update p v i = i @ [(p, v)]" by (rule update_fresh)
  with mset_nested_values_update [OF Some, of "AList.update p v i"] Some
  show ?thesis by (simp add: nest_value_def)
qed

subsection \<open>The outer loop\<close>

lemma set_update_subset: "set (AList.update k v u) \<subseteq> insert (k, v) (set u)"
  by (induction u) auto

lemma nest_items_slots:
  "nest_items re_rest ps ru xs (n, u) = Inr (n', u') \<Longrightarrow>
     (lookup_slot n' e p \<noteq> None) =
       (lookup_slot n e p \<noteq> None
        \<or> (p \<in> set ps \<and> (\<exists>k \<in> fst ` set xs. module_path_of re_rest k p = Some e)))"
proof (induction xs arbitrary: n u)
  case Nil
  then show ?case by simp
next
  case (Cons x xs)
  obtain k v where x: "x = (k, v)" by (cases x)
  from Cons.prems have "nest_items re_rest ps ru xs
           (filed re_rest k v ps n,
            if ru \<and> (\<forall>p \<in> set ps. module_path_of re_rest k p = None) then AList.update k v u else u)
         = Inr (n', u')"
    unfolding x by (rule nest_items_step)
  from Cons.IH [OF this] show ?case
    by (auto simp: x lookup_slot_filed)
qed

lemma nest_items_unmatched_keys:
  "nest_items re_rest ps True xs (n, u) = Inr (n', u') \<Longrightarrow>
     fst ` set u' = fst ` set u \<union> {k \<in> fst ` set xs. \<forall>p \<in> set ps. module_path_of re_rest k p = None}"
proof (induction xs arbitrary: n u)
  case Nil
  then show ?case by simp
next
  case (Cons x xs)
  obtain k v where x: "x = (k, v)" by (cases x)
  from Cons.prems have "nest_items re_rest ps True xs
           (filed re_rest k v ps n,
            if True \<and> (\<forall>p \<in> set ps. module_path_of re_rest k p = None) then AList.update k v u else u)
         = Inr (n', u')"
    unfolding x by (rule nest_items_step)
  from Cons.IH [OF this] show ?case
    by (auto simp: x AList.dom_update)
qed

lemma nest_items_unmatched_subset:
  "nest_items re_rest ps ru xs (n, u) = Inr (n', u') \<Longrightarrow> set u' \<subseteq> set u \<union> set xs"
proof (induction xs arbitrary: n u)
  case Nil
  then show ?case by simp
next
  case (Cons x xs)
  obtain k v where x: "x = (k, v)" by (cases x)
  from Cons.prems have "nest_items re_rest ps ru xs
           (filed re_rest k v ps n,
            if ru \<and> (\<forall>p \<in> set ps. module_path_of re_rest k p = None) then AList.update k v u else u)
         = Inr (n', u')"
    unfolding x by (rule nest_items_step)
  from Cons.IH [OF this] set_update_subset [of k v u] show ?case
    by (auto simp: x split: if_splits)
qed

lemma nest_items_values:
  assumes "nest_items re_rest ps True xs (n, u) = Inr (n', u')"
    and "distinct (map fst xs)"
    and "\<forall>kv \<in> set xs. fst kv \<notin> fst ` set u"
    and "\<forall>kv \<in> set xs. fst kv \<in> K"
    and "\<forall>k \<in> K. \<forall>p \<in> set ps. \<forall>q \<in> set ps.
           module_path_of re_rest k p \<noteq> None \<and> module_path_of re_rest k q \<noteq> None \<longrightarrow> p = q"
    and "\<forall>k \<in> K. \<forall>k' \<in> K. \<forall>p \<in> set ps.
           module_path_of re_rest k p \<noteq> None \<and> module_path_of re_rest k p = module_path_of re_rest k' p \<longrightarrow> k = k'"
    and "\<forall>kv \<in> set xs. \<forall>p \<in> set ps. \<forall>e.
           module_path_of re_rest (fst kv) p = Some e \<longrightarrow> lookup_slot n e p = None"
  shows "mset (nested_values n') + mset (map snd u')
       = mset (nested_values n) + mset (map snd u) + mset (map snd xs)"
  using assms
proof (induction xs arbitrary: n u)
  case Nil
  then show ?case by simp
next
  case (Cons x xs)
  obtain k v where x: "x = (k, v)" by (cases x)
  let ?n1 = "filed re_rest k v ps n"
  let ?u1 = "if True \<and> (\<forall>p \<in> set ps. module_path_of re_rest k p = None) then AList.update k v u else u"
  from Cons.prems(1) have run: "nest_items re_rest ps True xs (?n1, ?u1) = Inr (n', u')"
    unfolding x by (rule nest_items_step)
  from Cons.prems(2) have dist: "distinct (map fst xs)" and knew: "k \<notin> fst ` set xs"
    by (simp_all add: x)
  from Cons.prems(3) have ku: "k \<notin> fst ` set u"
    and disj: "\<forall>kv \<in> set xs. fst kv \<notin> fst ` set u"
    by (simp_all add: x)
  from Cons.prems(4) have kK: "k \<in> K" and inK: "\<forall>kv \<in> set xs. fst kv \<in> K"
    by (simp_all add: x)
  note h1 = Cons.prems(5)
  note h2 = Cons.prems(6)
  from Cons.prems(7) have freshk: "\<forall>p \<in> set ps. \<forall>e. module_path_of re_rest k p = Some e \<longrightarrow> lookup_slot n e p = None"
    and fresh: "\<forall>kv \<in> set xs. \<forall>p \<in> set ps. \<forall>e.
           module_path_of re_rest (fst kv) p = Some e \<longrightarrow> lookup_slot n e p = None"
    by (simp_all add: x)
  have fresh1: "\<forall>kv \<in> set xs. \<forall>p \<in> set ps. \<forall>e.
           module_path_of re_rest (fst kv) p = Some e \<longrightarrow> lookup_slot ?n1 e p = None"
  proof (intro ballI allI impI)
    fix kv p e
    assume kv: "kv \<in> set xs" and p: "p \<in> set ps" and e: "module_path_of re_rest (fst kv) p = Some e"
    from fresh kv p e have old: "lookup_slot n e p = None" by blast
    from inK kv have kvK: "fst kv \<in> K" by blast
    from kv knew have ne: "k \<noteq> fst kv" by force
    have "module_path_of re_rest k p \<noteq> Some e"
    proof
      assume ke: "module_path_of re_rest k p = Some e"
      with e have "module_path_of re_rest k p \<noteq> None \<and> module_path_of re_rest k p = module_path_of re_rest (fst kv) p"
        by simp
      with h2 kK kvK p have "k = fst kv" by blast
      with ne show False by simp
    qed
    with old show "lookup_slot ?n1 e p = None" by (simp add: lookup_slot_filed)
  qed
  show ?case
  proof (cases "\<forall>p \<in> set ps. module_path_of re_rest k p = None")
    case True
    then have n1: "?n1 = n" by (rule filed_no_hit)
    from True have u1: "?u1 = AList.update k v u" by simp
    have disj1: "\<forall>kv \<in> set xs. fst kv \<notin> fst ` set (AList.update k v u)"
    proof
      fix kv assume kv: "kv \<in> set xs"
      with knew have "fst kv \<noteq> k" by force
      moreover from disj kv have "fst kv \<notin> fst ` set u" by blast
      ultimately show "fst kv \<notin> fst ` set (AList.update k v u)"
        by (simp add: AList.dom_update)
    qed
    from run have run': "nest_items re_rest ps True xs (n, AList.update k v u) = Inr (n', u')"
      by (simp only: n1 u1)
    from fresh1 have fresh': "\<forall>kv \<in> set xs. \<forall>p \<in> set ps. \<forall>e.
           module_path_of re_rest (fst kv) p = Some e \<longrightarrow> lookup_slot n e p = None"
      by (simp only: n1)
    have "mset (nested_values n') + mset (map snd u')
       = mset (nested_values n) + mset (map snd (AList.update k v u)) + mset (map snd xs)"
      by (rule Cons.IH [OF run' dist disj1 inK h1 h2 fresh'])
    moreover from ku have "mset (map snd (AList.update k v u)) = mset (map snd u) + {#v#}"
      by (rule mset_values_update_fresh)
    ultimately show ?thesis by (simp add: x)
  next
    case False
    then obtain p where pin: "p \<in> set ps" and hit: "module_path_of re_rest k p \<noteq> None"
      by auto
    from hit obtain e where e: "module_path_of re_rest k p = Some e" by auto
    from h1 kK have h1k: "\<forall>p \<in> set ps. \<forall>q \<in> set ps.
        module_path_of re_rest k p \<noteq> None \<and> module_path_of re_rest k q \<noteq> None \<longrightarrow> p = q"
      by (rule bspec)
    have same: "\<forall>q \<in> set ps. module_path_of re_rest k q \<noteq> None \<longrightarrow> q = p"
    proof (intro ballI impI)
      fix q assume q: "q \<in> set ps" and qhit: "module_path_of re_rest k q \<noteq> None"
      from h1k q have "\<forall>q' \<in> set ps.
          module_path_of re_rest k q \<noteq> None \<and> module_path_of re_rest k q' \<noteq> None \<longrightarrow> q = q'"
        by (rule bspec)
      from this pin have "module_path_of re_rest k q \<noteq> None \<and> module_path_of re_rest k p \<noteq> None \<longrightarrow> q = p"
        by (rule bspec)
      with qhit hit show "q = p" by simp
    qed
    from filed_same_hit [OF same e pin] have n1: "?n1 = nest_value e p v n" .
    from False have u1: "?u1 = u" by (simp only: simp_thms if_False)
    from freshk pin e have "lookup_slot n e p = None" by blast
    then have vals: "mset (nested_values (nest_value e p v n)) = mset (nested_values n) + {#v#}"
      by (rule mset_nested_values_nest_value)
    from run have run': "nest_items re_rest ps True xs (nest_value e p v n, u) = Inr (n', u')"
      by (simp only: n1 u1)
    from fresh1 have fresh': "\<forall>kv \<in> set xs. \<forall>p' \<in> set ps. \<forall>e'.
           module_path_of re_rest (fst kv) p' = Some e' \<longrightarrow> lookup_slot (nest_value e p v n) e' p' = None"
      by (simp only: n1)
    have "mset (nested_values n') + mset (map snd u')
       = mset (nested_values (nest_value e p v n)) + mset (map snd u) + mset (map snd xs)"
      by (rule Cons.IH [OF run' dist disj inK h1 h2 fresh'])
    with vals show ?thesis by (simp add: x)
  qed
qed

subsection \<open>When the grouping returns\<close>

text \<open>
  The loops try every parameter name on every key, so the grouping returns exactly when
  \<open>re.findall\<close> raises on none of these pairs; inside the fragment it never raises.
\<close>

lemma nest_params_returns:
  "\<forall>p \<in> set ps. \<forall>e. match_param_name re_rest key p \<noteq> Inl e \<Longrightarrow>
     \<exists>r. nest_params re_rest key v ps (n, m) = Inr r"
proof (induction ps arbitrary: n m)
  case Nil
  show ?case by simp
next
  case (Cons p ps)
  from Cons.prems have rest: "\<forall>p \<in> set ps. \<forall>e. match_param_name re_rest key p \<noteq> Inl e"
    and here: "\<forall>e. match_param_name re_rest key p \<noteq> Inl e"
    by simp_all
  from here obtain x where x: "match_param_name re_rest key p = Inr x"
    by (cases "match_param_name re_rest key p") auto
  show ?case
  proof (cases x)
    case None
    with x Cons.IH [OF rest, of n m] show ?thesis by simp
  next
    case (Some module_path)
    with x Cons.IH [OF rest, of n m]
      Cons.IH [OF rest, of "nest_value module_path p v n" True]
    show ?thesis by simp
  qed
qed

lemma nest_params_returned:
  "nest_params re_rest key v ps (n, m) = Inr r \<Longrightarrow> p \<in> set ps \<Longrightarrow>
     match_param_name re_rest key p \<noteq> Inl e"
proof (induction ps arbitrary: n m)
  case Nil
  then show ?case by simp
next
  case (Cons q ps)
  from Cons.prems(1) obtain x where x: "match_param_name re_rest key q = Inr x"
    by (cases "match_param_name re_rest key q") auto
  from Cons.prems(1) x obtain n1 m1 where rest: "nest_params re_rest key v ps (n1, m1) = Inr r"
    by (cases x) (auto split: if_splits)
  show ?case
  proof (cases "p = q")
    case True
    with x show ?thesis by simp
  next
    case False
    with Cons.prems(2) have "p \<in> set ps" by simp
    with rest show ?thesis by (rule Cons.IH)
  qed
qed

lemma nest_items_returns:
  "\<forall>kv \<in> set xs. \<forall>p \<in> set ps. \<forall>e. match_param_name re_rest (fst kv) p \<noteq> Inl e \<Longrightarrow>
     \<exists>r. nest_items re_rest ps ru xs (n, u) = Inr r"
proof (induction xs arbitrary: n u)
  case Nil
  show ?case by simp
next
  case (Cons x xs)
  obtain k v where x: "x = (k, v)" by (cases x)
  from Cons.prems have here: "\<forall>p \<in> set ps. \<forall>e. match_param_name re_rest k p \<noteq> Inl e"
    and rest: "\<forall>kv \<in> set xs. \<forall>p \<in> set ps. \<forall>e. match_param_name re_rest (fst kv) p \<noteq> Inl e"
    by (simp_all add: x)
  from nest_params_returns [OF here, of v n False]
  obtain n1 m1 where np: "nest_params re_rest k v ps (n, False) = Inr (n1, m1)"
    by auto
  from Cons.IH [OF rest, of n1 "if ru \<and> \<not> m1 then AList.update k v u else u"] np
  show ?case by (simp add: x)
qed

lemma nest_items_returned:
  "nest_items re_rest ps ru xs (n, u) = Inr r \<Longrightarrow> kv \<in> set xs \<Longrightarrow> p \<in> set ps \<Longrightarrow>
     match_param_name re_rest (fst kv) p \<noteq> Inl e"
proof (induction xs arbitrary: n u)
  case Nil
  then show ?case by simp
next
  case (Cons x xs)
  obtain k v where x: "x = (k, v)" by (cases x)
  from Cons.prems(1) obtain n1 m1 where np: "nest_params re_rest k v ps (n, False) = Inr (n1, m1)"
    and rest: "nest_items re_rest ps ru xs (n1, if ru \<and> \<not> m1 then AList.update k v u else u) = Inr r"
    by (auto simp: x split: sum.splits)
  show ?case
  proof (cases "kv = x")
    case True
    with nest_params_returned [OF np Cons.prems(3)] show ?thesis by (simp add: x)
  next
    case False
    with Cons.prems(2) have "kv \<in> set xs" by simp
    from Cons.IH [OF rest this Cons.prems(3)] show ?thesis .
  qed
qed

lemma get_nested_mappings_from_state_dict_returns:
  assumes "\<forall>kv \<in> set state_dict. \<forall>p \<in> set params. \<forall>e.
             match_param_name re_rest (fst kv) p \<noteq> Inl e"
  shows "\<exists>nested unmatched.
           get_nested_mappings_from_state_dict re_rest state_dict params True
             = Inr (nested, Some unmatched)"
proof -
  from nest_items_returns [OF assms, of True "[]" "[]"]
  obtain nested unmatched where "nest_items re_rest params True state_dict ([], []) = Inr (nested, unmatched)"
    by auto
  then show ?thesis by (simp add: get_nested_mappings_from_state_dict_def)
qed

lemma get_nested_mappings_from_state_dict_returned:
  assumes "get_nested_mappings_from_state_dict re_rest state_dict params return_unmatched = Inr r"
    and "kv \<in> set state_dict" and "p \<in> set params"
  shows "match_param_name re_rest (fst kv) p \<noteq> Inl e"
proof -
  from assms(1) obtain r' where "nest_items re_rest params return_unmatched state_dict ([], []) = Inr r'"
    by (auto simp: get_nested_mappings_from_state_dict_def split: sum.splits)
  from nest_items_returned [OF this assms(2) assms(3)] show ?thesis .
qed

lemma in_fragment_returns:
  "compile_tail p \<noteq> None \<Longrightarrow> match_param_name re_rest key p \<noteq> Inl e"
  by (auto simp: match_param_name_in_fragment)

text \<open>
  \<open>get_nested_weight_mappings\<close> is the grouping of the mapping that \<open>get_weight_mappings\<close>
  resolves: what is proved of \<open>get_nested_mappings_from_state_dict\<close> holds of it too.
\<close>

lemma get_nested_weight_mappings_groups_resolved:
  "get_nested_weight_mappings max_alloc json_loads json_load re_rest fs model_path params
       return_unmatched =
     (case get_weight_mappings max_alloc json_loads json_load fs model_path of
        Inl e \<Rightarrow> Inl e
      | Inr weight_mappings \<Rightarrow>
          get_nested_mappings_from_state_dict re_rest weight_mappings params return_unmatched)"
  by (simp add: get_nested_weight_mappings_def get_nested_mappings_from_state_dict_def
      split: sum.splits)

subsection \<open>Names and values are partitioned\<close>

text \<open>
  C1, as stated, fails: a name that matches two suffixes is filed under both, so its
  value occurs twice among the nested values. With the suffixes \<open>c\<close> and \<open>b.c\<close> the
  one input value of \<open>a.b.c\<close> is in two slots, and the multiset of the grouped
  values is not the multiset of the input values.
\<close>

theorem value_duplicated_under_two_suffixes:
  "get_nested_mappings_from_state_dict no_match [(''a.b.c'', 1::nat)] [''c'', ''b.c''] True
     = Inr ([(Str ''a.b'', [(''c'', 1)]), (Str ''a'', [(''b.c'', 1)])], Some [])
   \<and> mset (nested_values [(Str ''a.b'', [(''c'', 1::nat)]), (Str ''a'', [(''b.c'', 1)])])
         + mset (map snd [])
       \<noteq> mset (map snd [(''a.b.c'', 1::nat)])"
proof -
  have "get_nested_mappings_from_state_dict no_match [(''a.b.c'', 1::nat)] [''c'', ''b.c''] True
     = Inr ([(Str ''a.b'', [(''c'', 1)]), (Str ''a'', [(''b.c'', 1)])], Some [])"
    by code_simp
  moreover have "mset (nested_values [(Str ''a.b'', [(''c'', 1::nat)]), (Str ''a'', [(''b.c'', 1)])])
         + mset (map snd [])
       \<noteq> mset (map snd [(''a.b.c'', 1::nat)])"
    by (simp add: nested_values_def)
  ultimately show ?thesis by simp
qed

text \<open>
  C1, amended: for every flat mapping (a \<open>dict\<close>, so with distinct names) and every
  suffix list such that \<open>re.findall\<close> raises for no name and suffix (which is when the
  grouping returns at all, and always so for suffixes inside the fragment), grouping
  with \<open>return_unmatched\<close> true returns a nested mapping and an unmatched mapping
  such that
  \<^item> an input name is a key of the unmatched mapping exactly when no suffix yields a
    non-empty entity for it, so never both;
  \<^item> an input name has a slot under every (entity, suffix) that matches it;
  \<^item> the nested mapping has no other slot;
  \<^item> the unmatched items are input items;
  \<^item> when no name matches two different suffixes and no two names share an
    (entity, suffix) slot, the multiset of all nested values plus the unmatched values
    is the multiset of the input values.

  \<open>get_nested_weight_mappings\<close> runs the same loop on the mapping that
  \<open>get_weight_mappings\<close> returns.
\<close>

theorem grouping_partitions_names_and_values:
  assumes "distinct (map fst state_dict)"
    and "\<forall>kv \<in> set state_dict. \<forall>p \<in> set params. \<forall>e.
           match_param_name re_rest (fst kv) p \<noteq> Inl e"
  shows "\<exists>nested unmatched.
         get_nested_mappings_from_state_dict re_rest state_dict params True
           = Inr (nested, Some unmatched)
       \<and> (\<forall>kv \<in> set state_dict.
            (fst kv \<in> fst ` set unmatched)
              = (\<forall>p \<in> set params. module_path_of re_rest (fst kv) p = None))
       \<and> (\<forall>kv \<in> set state_dict. \<forall>p \<in> set params. \<forall>e.
            module_path_of re_rest (fst kv) p = Some e \<longrightarrow> lookup_slot nested e p \<noteq> None)
       \<and> (\<forall>e p. lookup_slot nested e p \<noteq> None \<longrightarrow>
            p \<in> set params \<and> (\<exists>kv \<in> set state_dict. module_path_of re_rest (fst kv) p = Some e))
       \<and> set unmatched \<subseteq> set state_dict
       \<and> ((\<forall>k \<in> fst ` set state_dict. \<forall>p \<in> set params. \<forall>q \<in> set params.
              module_path_of re_rest k p \<noteq> None \<and> module_path_of re_rest k q \<noteq> None
              \<longrightarrow> p = q)
            \<and> (\<forall>k \<in> fst ` set state_dict. \<forall>k' \<in> fst ` set state_dict. \<forall>p \<in> set params.
                  module_path_of re_rest k p \<noteq> None
                  \<and> module_path_of re_rest k p = module_path_of re_rest k' p
                  \<longrightarrow> k = k')
            \<longrightarrow> mset (nested_values nested) + mset (map snd unmatched)
                  = mset (map snd state_dict))"
proof -
  from nest_items_returns [OF assms(2), of True "[]" "[]"]
  obtain nested unmatched
    where run: "nest_items re_rest params True state_dict ([], []) = Inr (nested, unmatched)"
    by auto
  then have c0: "get_nested_mappings_from_state_dict re_rest state_dict params True
      = Inr (nested, Some unmatched)"
    by (simp add: get_nested_mappings_from_state_dict_def)
  have empty: "\<And>e p. lookup_slot ([] :: 'a nested) e p = None"
    by (simp add: lookup_slot_def)
  have slots: "\<And>e p. (lookup_slot nested e p \<noteq> None) =
      (p \<in> set params \<and> (\<exists>k \<in> fst ` set state_dict. module_path_of re_rest k p = Some e))"
    using nest_items_slots [OF run] by (simp add: empty)
  have keys: "fst ` set unmatched =
      {k \<in> fst ` set state_dict. \<forall>p \<in> set params. module_path_of re_rest k p = None}"
    using nest_items_unmatched_keys [OF run] by simp
  have c1: "\<forall>kv \<in> set state_dict.
            (fst kv \<in> fst ` set unmatched)
              = (\<forall>p \<in> set params. module_path_of re_rest (fst kv) p = None)"
    unfolding keys by auto
  have c2: "\<forall>kv \<in> set state_dict. \<forall>p \<in> set params. \<forall>e.
            module_path_of re_rest (fst kv) p = Some e \<longrightarrow> lookup_slot nested e p \<noteq> None"
    unfolding slots by auto
  have c3: "\<forall>e p. lookup_slot nested e p \<noteq> None \<longrightarrow>
            p \<in> set params \<and> (\<exists>kv \<in> set state_dict. module_path_of re_rest (fst kv) p = Some e)"
    unfolding slots by auto
  have c4: "set unmatched \<subseteq> set state_dict"
    using nest_items_unmatched_subset [OF run] by simp
  have c5: "(\<forall>k \<in> fst ` set state_dict. \<forall>p \<in> set params. \<forall>q \<in> set params.
              module_path_of re_rest k p \<noteq> None \<and> module_path_of re_rest k q \<noteq> None
              \<longrightarrow> p = q)
            \<and> (\<forall>k \<in> fst ` set state_dict. \<forall>k' \<in> fst ` set state_dict. \<forall>p \<in> set params.
                  module_path_of re_rest k p \<noteq> None
                  \<and> module_path_of re_rest k p = module_path_of re_rest k' p
                  \<longrightarrow> k = k')
            \<longrightarrow> mset (nested_values nested) + mset (map snd unmatched)
                  = mset (map snd state_dict)"
  proof
    assume h: "(\<forall>k \<in> fst ` set state_dict. \<forall>p \<in> set params. \<forall>q \<in> set params.
              module_path_of re_rest k p \<noteq> None \<and> module_path_of re_rest k q \<noteq> None
              \<longrightarrow> p = q)
            \<and> (\<forall>k \<in> fst ` set state_dict. \<forall>k' \<in> fst ` set state_dict. \<forall>p \<in> set params.
                  module_path_of re_rest k p \<noteq> None
                  \<and> module_path_of re_rest k p = module_path_of re_rest k' p
                  \<longrightarrow> k = k')"
    from h have h1: "\<forall>k \<in> fst ` set state_dict. \<forall>p \<in> set params. \<forall>q \<in> set params.
              module_path_of re_rest k p \<noteq> None \<and> module_path_of re_rest k q \<noteq> None
              \<longrightarrow> p = q"
      by (rule conjunct1)
    from h have h2: "\<forall>k \<in> fst ` set state_dict. \<forall>k' \<in> fst ` set state_dict. \<forall>p \<in> set params.
                  module_path_of re_rest k p \<noteq> None
                  \<and> module_path_of re_rest k p = module_path_of re_rest k' p
                  \<longrightarrow> k = k'"
      by (rule conjunct2)
    have a: "\<forall>kv \<in> set state_dict. fst kv \<notin> fst ` set ([] :: (string \<times> 'a) list)" by simp
    have b: "\<forall>kv \<in> set state_dict. fst kv \<in> fst ` set state_dict" by simp
    have c: "\<forall>kv \<in> set state_dict. \<forall>p \<in> set params. \<forall>e.
           module_path_of re_rest (fst kv) p = Some e \<longrightarrow> lookup_slot ([] :: 'a nested) e p = None"
      by (simp add: empty)
    from nest_items_values [OF run assms(1) a b h1 h2 c]
    show "mset (nested_values nested) + mset (map snd unmatched) = mset (map snd state_dict)"
      by (simp add: nested_values_def)
  qed
  from c0 c1 c2 c3 c4 c5 show ?thesis by (intro exI conjI)
qed

lemma stacked_matches:
  "match_param_name no_match ''layer.weight_scale'' ''weight_scale'' = Inr (Some (Str ''layer''))"
  "match_param_name no_match ''layer.weight_scale'' ''zero_point'' = Inr None"
  "match_param_name no_match ''layer.zero_point'' ''weight_scale'' = Inr None"
  "match_param_name no_match ''layer.zero_point'' ''zero_point'' = Inr (Some (Str ''layer''))"
  "match_param_name no_match ''layer.bitmask'' ''weight_scale'' = Inr None"
  "match_param_name no_match ''layer.bitmask'' ''zero_point'' = Inr None"
  "match_param_name no_match ''layer.shape'' ''weight_scale'' = Inr None"
  "match_param_name no_match ''layer.shape'' ''zero_point'' = Inr None"
  by code_simp+

lemma stacked_paths:
  "module_path_of no_match ''layer.weight_scale'' ''weight_scale'' = Some (Str ''layer'')"
  "module_path_of no_match ''layer.weight_scale'' ''zero_point'' = None"
  "module_path_of no_match ''layer.zero_point'' ''weight_scale'' = None"
  "module_path_of no_match ''layer.zero_point'' ''zero_point'' = Some (Str ''layer'')"
  "module_path_of no_match ''layer.bitmask'' ''weight_scale'' = None"
  "module_path_of no_match ''layer.bitmask'' ''zero_point'' = None"
  "module_path_of no_match ''layer.shape'' ''weight_scale'' = None"
  "module_path_of no_match ''layer.shape'' ''zero_point'' = None"
  by (simp_all add: module_path_of_def stacked_matches)

lemma stacked_grouped:
  "get_nested_mappings_from_state_dict no_match stacked_state_dict quantization_params True
     = Inr ([(Str ''layer'', [(''weight_scale'', ''A''), (''zero_point'', ''B'')])],
            Some [(''layer.bitmask'', ''C''), (''layer.shape'', ''D'')])"
  by code_simp

theorem grouping_partitions_names_and_values_witness:
  "distinct (map fst stacked_state_dict)
   \<and> get_nested_mappings_from_state_dict no_match stacked_state_dict quantization_params True
       = Inr ([(Str ''layer'', [(''weight_scale'', ''A''), (''zero_point'', ''B'')])],
              Some [(''layer.bitmask'', ''C''), (''layer.shape'', ''D'')])
   \<and> ''layer.bitmask'' \<in> fst ` set [(''layer.bitmask'', ''C''), (''layer.shape'', ''D'')]
   \<and> lookup_slot [(Str ''layer'', [(''weight_scale'', ''A''), (''zero_point'', ''B'')])]
         (Str ''layer'') ''zero_point'' = Some ''B''
   \<and> mset (nested_values [(Str ''layer'', [(''weight_scale'', ''A''), (''zero_point'', ''B'')])])
       + mset (map snd [(''layer.bitmask'', ''C''), (''layer.shape'', ''D'')])
       = mset (map snd stacked_state_dict)"
proof -
  let ?N = "[(Str ''layer'', [(''weight_scale'', ''A''), (''zero_point'', ''B'')])]"
  let ?U = "[(''layer.bitmask'', ''C''), (''layer.shape'', ''D'')]"
  have d: "distinct (map fst stacked_state_dict)"
    by (simp add: stacked_state_dict_def)
  have r: "\<forall>kv \<in> set stacked_state_dict. \<forall>p \<in> set quantization_params. \<forall>e.
        match_param_name no_match (fst kv) p \<noteq> Inl e"
    by (simp add: stacked_state_dict_def quantization_params_def stacked_matches)
  have h1: "\<forall>k \<in> fst ` set stacked_state_dict. \<forall>p \<in> set quantization_params.
        \<forall>q \<in> set quantization_params.
          module_path_of no_match k p \<noteq> None \<and> module_path_of no_match k q \<noteq> None \<longrightarrow> p = q"
    by (simp add: stacked_state_dict_def quantization_params_def stacked_paths)
  have h2: "\<forall>k \<in> fst ` set stacked_state_dict. \<forall>k' \<in> fst ` set stacked_state_dict.
        \<forall>p \<in> set quantization_params.
          module_path_of no_match k p \<noteq> None
          \<and> module_path_of no_match k p = module_path_of no_match k' p \<longrightarrow> k = k'"
    by (simp add: stacked_state_dict_def quantization_params_def stacked_paths)
  from grouping_partitions_names_and_values [OF d r]
  obtain nested unmatched
    where run: "get_nested_mappings_from_state_dict no_match stacked_state_dict quantization_params True
        = Inr (nested, Some unmatched)"
      and c1: "\<forall>kv \<in> set stacked_state_dict.
            (fst kv \<in> fst ` set unmatched)
              = (\<forall>p \<in> set quantization_params. module_path_of no_match (fst kv) p = None)"
      and c2: "\<forall>kv \<in> set stacked_state_dict. \<forall>p \<in> set quantization_params. \<forall>e.
            module_path_of no_match (fst kv) p = Some e \<longrightarrow> lookup_slot nested e p \<noteq> None"
      and c5: "(\<forall>k \<in> fst ` set stacked_state_dict. \<forall>p \<in> set quantization_params.
            \<forall>q \<in> set quantization_params.
              module_path_of no_match k p \<noteq> None \<and> module_path_of no_match k q \<noteq> None
              \<longrightarrow> p = q)
            \<and> (\<forall>k \<in> fst ` set stacked_state_dict. \<forall>k' \<in> fst ` set stacked_state_dict.
                \<forall>p \<in> set quantization_params.
                  module_path_of no_match k p \<noteq> None
                  \<and> module_path_of no_match k p = module_path_of no_match k' p
                  \<longrightarrow> k = k')
            \<longrightarrow> mset (nested_values nested) + mset (map snd unmatched)
                  = mset (map snd stacked_state_dict)"
    by (elim exE conjE)
  from run stacked_grouped have n: "nested = ?N" and u: "unmatched = ?U"
    by simp_all
  from c5 h1 h2 have "mset (nested_values nested) + mset (map snd unmatched)
      = mset (map snd stacked_state_dict)"
    by (simp only: simp_thms)
  then have vals: "mset (nested_values ?N) + mset (map snd ?U) = mset (map snd stacked_state_dict)"
    by (simp only: n u)
  have bm: "(''layer.bitmask'', ''C'') \<in> set stacked_state_dict"
    by (simp add: stacked_state_dict_def)
  have nohit: "\<forall>p \<in> set quantization_params. module_path_of no_match ''layer.bitmask'' p = None"
    by (simp add: quantization_params_def stacked_paths)
  from c1 bm have "(fst (''layer.bitmask'', ''C'') \<in> fst ` set unmatched)
      = (\<forall>p \<in> set quantization_params.
           module_path_of no_match (fst (''layer.bitmask'', ''C'')) p = None)"
    by (rule bspec)
  with nohit have um: "''layer.bitmask'' \<in> fst ` set ?U"
    by (simp add: u)
  have sl: "lookup_slot ?N (Str ''layer'') ''zero_point'' = Some ''B''"
    by (simp add: lookup_slot_def)
  from d stacked_grouped um sl vals show ?thesis by (intro conjI)
qed

subsection \<open>Names without an entity prefix\<close>

lemma nest_items_append:
  "nest_items re_rest ps ru (xs @ ys) acc =
     (case nest_items re_rest ps ru xs acc of Inl e \<Rightarrow> Inl e | Inr acc' \<Rightarrow> nest_items re_rest ps ru ys acc')"
proof (induction xs arbitrary: acc)
  case Nil
  show ?case by (cases acc) simp
next
  case (Cons x xs)
  obtain k v where x: "x = (k, v)" by (cases x)
  obtain n u where acc: "acc = (n, u)" by (cases acc)
  show ?case
    by (simp add: x acc Cons.IH split: sum.splits prod.splits)
qed

lemma nest_items_nested_indep:
  "nest_items re_rest ps ru xs (n, u) = Inr (n', u') \<Longrightarrow> \<exists>w. nest_items re_rest ps ru xs (n, u2) = Inr (n', w)"
proof (induction xs arbitrary: n u u2)
  case Nil
  then show ?case by simp
next
  case (Cons x xs)
  obtain k v where x: "x = (k, v)" by (cases x)
  from Cons.prems obtain n1 m1 where np: "nest_params re_rest k v ps (n, False) = Inr (n1, m1)"
    and rest: "nest_items re_rest ps ru xs (n1, if ru \<and> \<not> m1 then AList.update k v u else u) = Inr (n', u')"
    by (auto simp: x split: sum.splits)
  from Cons.IH [OF rest, of "if ru \<and> \<not> m1 then AList.update k v u2 else u2"]
  obtain w where "nest_items re_rest ps ru xs (n1, if ru \<and> \<not> m1 then AList.update k v u2 else u2) = Inr (n', w)"
    by blast
  with np show ?case by (simp add: x)
qed

lemma nest_items_unmatched_other:
  "nest_items re_rest ps ru xs (n, u) = Inr (n', u') \<Longrightarrow> k \<notin> fst ` set xs \<Longrightarrow> map_of u' k = map_of u k"
proof (induction xs arbitrary: n u)
  case Nil
  then show ?case by simp
next
  case (Cons x xs)
  obtain k1 v1 where x: "x = (k1, v1)" by (cases x)
  from Cons.prems(2) have ne: "k1 \<noteq> k" and notin: "k \<notin> fst ` set xs" by (auto simp: x)
  from Cons.prems(1) have "nest_items re_rest ps ru xs
           (filed re_rest k1 v1 ps n,
            if ru \<and> (\<forall>p \<in> set ps. module_path_of re_rest k1 p = None) then AList.update k1 v1 u else u)
         = Inr (n', u')"
    unfolding x by (rule nest_items_step)
  from Cons.IH [OF this notin] ne show ?case
    by (simp add: AList.update_conv' split: if_splits)
qed

lemma literal_name_has_no_dot: "\<forall>c \<in> set s. c \<notin> set SPECIAL_CHARS \<Longrightarrow> CHR ''.'' \<notin> set s"
  by (auto simp: SPECIAL_CHARS_def)

lemma bare_suffix_not_filed:
  assumes s: "\<forall>c \<in> set s. c \<notin> set SPECIAL_CHARS"
    and p: "\<forall>c \<in> set p. c \<notin> set SPECIAL_CHARS"
    and name: "name = ''.'' @ s \<or> name = s"
  shows "module_path_of re_rest name p = None"
proof (rule ccontr)
  assume "module_path_of re_rest name p \<noteq> None"
  then obtain m where m: "match_param_name re_rest name p = Inr (Some m)" and t: "truthy m"
    by (auto simp: module_path_of_def split: sum.splits option.splits if_splits)
  from match_param_name_literal_sound [OF p m]
  obtain g where mg: "m = Str g"
    and split: "name = g @ ''.'' @ p \<or> name = g @ ''.'' @ p @ [newline]"
    by auto
  from t mg have ne: "g \<noteq> []" by simp
  from ne obtain c g' where gc: "g = c # g'" by (cases g) auto
  from literal_name_has_no_dot [OF s] have nodot: "CHR ''.'' \<notin> set s" .
  from name show False
  proof
    assume "name = ''.'' @ s"
    with split gc have "s = g' @ ''.'' @ p \<or> s = g' @ ''.'' @ p @ [newline]" by auto
    with nodot show False by auto
  next
    assume "name = s"
    with split have "CHR ''.'' \<in> set s" by auto
    with nodot show False by simp
  qed
qed

text \<open>
  C7, as stated, fails: a name equal to \<open>"." + s\<close> or to \<open>s\<close> for a configured suffix
  \<open>s\<close> is still tried against every other configured suffix, and filed under the ones
  that match it. With the suffixes \<open>a.b\<close> and \<open>b\<close>, the names \<open>.a.b\<close> and \<open>a.b\<close> are
  both filed under the suffix \<open>b\<close>, and the unmatched mapping is empty.
\<close>

theorem bare_suffix_nested_under_other_suffix:
  "get_nested_mappings_from_state_dict no_match [(''.a.b'', 1::nat), (''a.b'', 2)] [''a.b'', ''b''] True
     = Inr ([(Str ''.a'', [(''b'', 1)]), (Str ''a'', [(''b'', 2)])], Some [])"
  by code_simp

text \<open>
  C7, amended: for a suffix \<open>s\<close> without regular-expression special characters, the names
  \<open>"." + s\<close> and \<open>s\<close> are not filed under \<open>s\<close>; and when no other configured suffix
  yields a non-empty entity for such a name, and \<open>re.findall\<close> raises for no name and
  suffix, the grouping returns, the name leaves the nested mapping as it is without it
  (grouping the flat mapping with and without the name gives the same nested mapping)
  and it is a key of the unmatched mapping, with its value, when \<open>return_unmatched\<close> is
  true. By \<open>bare_suffix_not_filed\<close> no suffix without special characters yields an
  entity for such a name, so the condition on the other suffixes holds whenever all
  configured suffixes are free of special characters.
\<close>

theorem bare_suffix_is_unmatched:
  assumes "\<forall>c \<in> set s. c \<notin> set SPECIAL_CHARS"
    and "name = ''.'' @ s \<or> name = s"
    and "\<forall>p \<in> set params. p \<noteq> s \<longrightarrow> module_path_of re_rest name p = None"
    and "distinct (map fst (before @ (name, v) # after))"
    and "\<forall>kv \<in> set (before @ (name, v) # after). \<forall>p \<in> set params. \<forall>e.
           match_param_name re_rest (fst kv) p \<noteq> Inl e"
  shows "module_path_of re_rest name s = None
       \<and> (\<exists>nested unmatched u.
             get_nested_mappings_from_state_dict re_rest (before @ (name, v) # after) params True
               = Inr (nested, Some unmatched)
           \<and> get_nested_mappings_from_state_dict re_rest (before @ after) params True
               = Inr (nested, Some u)
           \<and> map_of unmatched name = Some v)"
proof -
  have own: "module_path_of re_rest name s = None"
    using assms(1) assms(1) assms(2) by (rule bare_suffix_not_filed)
  have nohit: "\<forall>p \<in> set params. module_path_of re_rest name p = None"
  proof
    fix p assume p: "p \<in> set params"
    show "module_path_of re_rest name p = None"
    proof (cases "p = s")
      case True
      with own show ?thesis by simp
    next
      case False
      with assms(3) p show ?thesis by simp
    qed
  qed
  from assms(4) have later: "name \<notin> fst ` set after"
    by auto
  from nest_items_returns [OF assms(5), of True "[]" "[]"]
  obtain nested unmatched
    where full: "nest_items re_rest params True (before @ (name, v) # after) ([], [])
        = Inr (nested, unmatched)"
    by auto
  then obtain n1 u1 where first: "nest_items re_rest params True before ([], []) = Inr (n1, u1)"
    and rest: "nest_items re_rest params True ((name, v) # after) (n1, u1) = Inr (nested, unmatched)"
    by (auto simp: nest_items_append split: sum.splits)
  from nest_items_step [OF rest] nohit
  have tail: "nest_items re_rest params True after (n1, AList.update name v u1) = Inr (nested, unmatched)"
    by (simp add: filed_no_hit)
  from nest_items_nested_indep [OF tail, of u1]
  obtain w where "nest_items re_rest params True after (n1, u1) = Inr (nested, w)" by (rule exE)
  with first have "nest_items re_rest params True (before @ after) ([], []) = Inr (nested, w)"
    by (simp add: nest_items_append)
  then have without: "get_nested_mappings_from_state_dict re_rest (before @ after) params True
      = Inr (nested, Some w)"
    by (simp add: get_nested_mappings_from_state_dict_def)
  from full have with_name:
    "get_nested_mappings_from_state_dict re_rest (before @ (name, v) # after) params True
      = Inr (nested, Some unmatched)"
    by (simp add: get_nested_mappings_from_state_dict_def)
  from nest_items_unmatched_other [OF tail later]
  have kept: "map_of unmatched name = Some v"
    by (simp add: AList.update_conv')
  from with_name without kept
  have "get_nested_mappings_from_state_dict re_rest (before @ (name, v) # after) params True
               = Inr (nested, Some unmatched)
           \<and> get_nested_mappings_from_state_dict re_rest (before @ after) params True
               = Inr (nested, Some w)
           \<and> map_of unmatched name = Some v"
    by (intro conjI)
  then have "\<exists>nested unmatched u.
             get_nested_mappings_from_state_dict re_rest (before @ (name, v) # after) params True
               = Inr (nested, Some unmatched)
           \<and> get_nested_mappings_from_state_dict re_rest (before @ after) params True
               = Inr (nested, Some u)
           \<and> map_of unmatched name = Some v"
    by (intro exI)
  with own show ?thesis by (rule conjI)
qed

text \<open>
  A sample with the suffix \<^verbatim>\<open>[b]\<close>, a character class, beside the suffix \<open>w\<close>: the
  class is outside the fragment, and \<open>re.findall\<close> finds no match of it in the three
  names.
\<close>

lemma bare_sample_matches:
  "match_param_name no_match ''layer.w'' ''w'' = Inr (Some (Str ''layer''))"
  "match_param_name no_match ''.w'' ''w'' = Inr (Some (Str []))"
  "match_param_name no_match ''w'' ''w'' = Inr None"
  "match_param_name no_match ''layer.w'' ''[b]'' = Inr None"
  "match_param_name no_match ''.w'' ''[b]'' = Inr None"
  "match_param_name no_match ''w'' ''[b]'' = Inr None"
  by code_simp+

lemma bare_suffix_sample_grouped:
  "get_nested_mappings_from_state_dict no_match bare_state_dict class_params True
     = Inr ([(Str ''layer'', [(''w'', 1)])], Some [(''.w'', 2), (''w'', 3)])"
  by code_simp

lemma bare_suffix_sample_without:
  "get_nested_mappings_from_state_dict no_match [(''layer.w'', 1::nat), (''w'', 3)] class_params True
     = Inr ([(Str ''layer'', [(''w'', 1)])], Some [(''w'', 3)])"
  by code_simp

theorem bare_suffix_is_unmatched_witness:
  "bare_state_dict = [(''layer.w'', 1)] @ (''.w'', 2) # [(''w'', 3)]
   \<and> get_nested_mappings_from_state_dict no_match bare_state_dict class_params True
     = Inr ([(Str ''layer'', [(''w'', 1)])], Some [(''.w'', 2), (''w'', 3)])
   \<and> module_path_of no_match ''.w'' ''w'' = None
   \<and> get_nested_mappings_from_state_dict no_match ([(''layer.w'', 1::nat)] @ [(''w'', 3)]) class_params True
     = Inr ([(Str ''layer'', [(''w'', 1)])], Some [(''w'', 3)])
   \<and> map_of [(''.w'', 2::nat), (''w'', 3)] ''.w'' = Some 2"
proof -
  have sd: "bare_state_dict = [(''layer.w'', 1)] @ (''.w'', 2) # [(''w'', 3)]"
    by (simp add: bare_state_dict_def)
  have lit: "\<forall>c \<in> set ''w''. c \<notin> set SPECIAL_CHARS"
    by (simp add: SPECIAL_CHARS_def backslash_def)
  have name: "''.w'' = ''.'' @ ''w'' \<or> ''.w'' = ''w''"
    by simp
  have others: "\<forall>p \<in> set class_params. p \<noteq> ''w'' \<longrightarrow> module_path_of no_match ''.w'' p = None"
    by (simp add: class_params_def module_path_of_def bare_sample_matches)
  have d: "distinct (map fst ([(''layer.w'', 1::nat)] @ (''.w'', 2) # [(''w'', 3)]))"
    by simp
  have r: "\<forall>kv \<in> set ([(''layer.w'', 1::nat)] @ (''.w'', 2) # [(''w'', 3)]).
        \<forall>p \<in> set class_params. \<forall>e. match_param_name no_match (fst kv) p \<noteq> Inl e"
    by (simp add: class_params_def bare_sample_matches)
  from bare_suffix_is_unmatched [OF lit name others d r]
  have own: "module_path_of no_match ''.w'' ''w'' = None"
    and ex: "\<exists>nested unmatched u.
             get_nested_mappings_from_state_dict no_match
                 ([(''layer.w'', 1::nat)] @ (''.w'', 2) # [(''w'', 3)]) class_params True
               = Inr (nested, Some unmatched)
           \<and> get_nested_mappings_from_state_dict no_match
                 ([(''layer.w'', 1::nat)] @ [(''w'', 3)]) class_params True
               = Inr (nested, Some u)
           \<and> map_of unmatched ''.w'' = Some 2"
    by (rule conjunct1, rule conjunct2)
  from ex obtain nested unmatched u
    where run: "get_nested_mappings_from_state_dict no_match
                 ([(''layer.w'', 1::nat)] @ (''.w'', 2) # [(''w'', 3)]) class_params True
               = Inr (nested, Some unmatched)"
      and without: "get_nested_mappings_from_state_dict no_match
                 ([(''layer.w'', 1::nat)] @ [(''w'', 3)]) class_params True
               = Inr (nested, Some u)"
      and kept: "map_of unmatched ''.w'' = Some 2"
    by (elim exE conjE)
  from run bare_suffix_sample_grouped
  have n: "nested = [(Str ''layer'', [(''w'', 1)])]" and um: "unmatched = [(''.w'', 2), (''w'', 3)]"
    by (simp_all add: sd)
  from without bare_suffix_sample_without have "u = [(''w'', 3)]"
    by simp
  with without n
  have w2: "get_nested_mappings_from_state_dict no_match ([(''layer.w'', 1::nat)] @ [(''w'', 3)]) class_params True
     = Inr ([(Str ''layer'', [(''w'', 1)])], Some [(''w'', 3)])"
    by (simp only:)
  from kept um have k2: "map_of [(''.w'', 2::nat), (''w'', 3)] ''.w'' = Some 2"
    by (simp only:)
  from sd bare_suffix_sample_grouped own w2 k2 show ?thesis by (intro conjI)
qed

end
